theory Spec2Isabelle
  imports Main "HOL-Library.Char_ord" "HOL-Library.List_Lexorder" "HOL-Library.Option_ord"
begin

section \<open>Data model\<close>

text \<open>
  The collection \<open>db.chat_users\<close> of \<open>models/user_model.py\<close> holds one document
  per user. A document's \<open>_id\<close> is always there; every other field may be missing
  (the batch of \<open>delete_user\<close> unsets most of them, the queries test \<open>$exists\<close>), so it is an
  option. An \<open>ObjectId\<close> is a natural number, a \<open>datetime\<close> as well.
\<close>

type_synonym oid = nat

text \<open>
  Modelled from the spec: the enum \<open>Status\<close> of \<open>models/enums.py\<close> is not part of the
  sources at hand. The spec names it "enum: offline/online/..."; the code uses
  \<open>Status.offline\<close> (the dataclass default) and \<open>Status.online\<close> (set on registration).
\<close>

datatype status = Offline | Online | OtherStatus nat

text \<open>
  The exceptions the modelled code raises. The three classes nested in \<open>UserModel.exc\<close>
  derive from \<open>ValueError\<close>; a plain \<open>ValueError\<close>, the \<open>TypeError\<close> of subscripting
  \<open>None\<close> or of a bad constructor call, the \<open>KeyError\<close> of a missing dict key, the
  \<open>IndexError\<close> of \<open>pop\<close> on an empty list and the \<open>CancelledError\<close> asyncio raises in
  a cancelled task are the others.
\<close>

datatype error =
    UserNotInGroup | InvalidUser | UnavailableForBots
  | ValueError | TypeError | KeyError | IndexError | CancelledError

record user_doc =
  d_id :: oid
  d_nick :: "string option"
  d_created_at :: "nat option"
  d_bot :: "bool option"
  d_deleted :: "bool option"
  d_token :: "string option"
  d_status :: "status option"
  d_text_status :: "string option"
  d_code :: "string option"
  d_parent :: "oid option"
  d_blocked :: "oid list option"
  d_friends :: "oid list option"
  d_pendings_outgoing :: "oid list option"
  d_pendings_incoming :: "oid list option"
  d_salt :: "string option"
  d_login :: "string option"
  d_password :: "string option"

text \<open>The dataclass \<open>UserModel\<close>, with its field defaults in \<open>UserModel_init\<close> below.\<close>

record UserModel =
  uid :: oid
  nick :: string
  created_at :: nat
  bot_flag :: bool
  deleted :: bool
  token :: "string option"
  status_of :: status
  text_status :: string
  code :: "string option"
  parent :: "oid option"
  blocked :: "oid list"
  friends :: "oid list"
  pendings_outgoing :: "oid list"
  pendings_incoming :: "oid list"

text \<open>
  \<open>cls(**user)\<close>: the keyword arguments are the document's fields. \<open>_id\<close>, \<open>nick\<close> and
  \<open>created_at\<close> have no default, and the dataclass has no field \<open>salt\<close>, \<open>login\<close> or
  \<open>password\<close>: a missing required argument and an unexpected keyword are both a
  \<open>TypeError\<close>.
\<close>

definition UserModel_init :: "user_doc \<Rightarrow> error + UserModel" where
  "UserModel_init d =
     (if d_salt d \<noteq> None then Inl TypeError
      else if d_login d \<noteq> None then Inl TypeError
      else if d_password d \<noteq> None then Inl TypeError
      else case d_nick d of
        None \<Rightarrow> Inl TypeError
      | Some n \<Rightarrow>
         (case d_created_at d of
            None \<Rightarrow> Inl TypeError
          | Some t \<Rightarrow> Inr \<lparr>
              uid = d_id d,
              nick = n,
              created_at = t,
              bot_flag = (case d_bot d of None \<Rightarrow> False | Some b \<Rightarrow> b),
              deleted = (case d_deleted d of None \<Rightarrow> False | Some b \<Rightarrow> b),
              token = d_token d,
              status_of = (case d_status d of None \<Rightarrow> Offline | Some s \<Rightarrow> s),
              text_status = (case d_text_status d of None \<Rightarrow> [] | Some s \<Rightarrow> s),
              code = d_code d,
              parent = d_parent d,
              blocked = (case d_blocked d of None \<Rightarrow> [] | Some xs \<Rightarrow> xs),
              friends = (case d_friends d of None \<Rightarrow> [] | Some xs \<Rightarrow> xs),
              pendings_outgoing = (case d_pendings_outgoing d of None \<Rightarrow> [] | Some xs \<Rightarrow> xs),
              pendings_incoming = (case d_pendings_incoming d of None \<Rightarrow> [] | Some xs \<Rightarrow> xs)
            \<rparr>))"

section \<open>The store\<close>

text \<open>
  The collection is the list of its documents. \<open>count_documents\<close> counts the matches
  of a filter, \<open>find_one\<close> returns the first match, \<open>find\<close> (here \<open>find_docs\<close>) all of
  them in the collection's order, each passed through the projection.
\<close>

type_synonym users_db = "user_doc list"

definition count_documents :: "(user_doc \<Rightarrow> bool) \<Rightarrow> users_db \<Rightarrow> nat" where
  "count_documents flt db = length (filter flt db)"

fun find_one :: "(user_doc \<Rightarrow> bool) \<Rightarrow> users_db \<Rightarrow> user_doc option" where
  "find_one flt [] = None"
| "find_one flt (d # ds) = (if flt d then Some d else find_one flt ds)"

abbreviation by_id :: "oid \<Rightarrow> user_doc \<Rightarrow> bool" where
  "by_id x \<equiv> (\<lambda>d. d_id d = x)"

definition find_docs ::
  "(user_doc \<Rightarrow> bool) \<Rightarrow> (user_doc \<Rightarrow> user_doc) \<Rightarrow> users_db \<Rightarrow> user_doc list" where
  "find_docs flt projection db = map projection (filter flt db)"

text \<open>
  The four relation arrays and the update operators the code uses. \<open>$push\<close> appends
  (and creates the array when the field is missing); \<open>$pull\<close> removes every occurrence
  of the value (and leaves a missing field missing). \<open>Unset_account\<close> is the \<open>$unset\<close>
  of \<open>delete_user\<close> (token, status, text_status, code, parent and the four relation
  arrays); \<open>Set_deleted\<close> is its \<open>$set\<close> of \<open>deleted\<close>.
\<close>

datatype relfield = Blocked | Friends | Pendings_outgoing | Pendings_incoming

datatype update = Push relfield oid | Pull relfield oid | Unset_account | Set_deleted bool

fun get_rel :: "relfield \<Rightarrow> user_doc \<Rightarrow> oid list option" where
  "get_rel Blocked d = d_blocked d"
| "get_rel Friends d = d_friends d"
| "get_rel Pendings_outgoing d = d_pendings_outgoing d"
| "get_rel Pendings_incoming d = d_pendings_incoming d"

fun set_rel :: "relfield \<Rightarrow> oid list option \<Rightarrow> user_doc \<Rightarrow> user_doc" where
  "set_rel Blocked v d = d\<lparr>d_blocked := v\<rparr>"
| "set_rel Friends v d = d\<lparr>d_friends := v\<rparr>"
| "set_rel Pendings_outgoing v d = d\<lparr>d_pendings_outgoing := v\<rparr>"
| "set_rel Pendings_incoming v d = d\<lparr>d_pendings_incoming := v\<rparr>"

fun apply_update :: "update \<Rightarrow> user_doc \<Rightarrow> user_doc" where
  "apply_update (Push f v) d =
     set_rel f (Some (case get_rel f d of None \<Rightarrow> [v] | Some xs \<Rightarrow> xs @ [v])) d"
| "apply_update (Pull f v) d =
     (case get_rel f d of None \<Rightarrow> d | Some xs \<Rightarrow> set_rel f (Some (removeAll v xs)) d)"
| "apply_update Unset_account d =
     d\<lparr>d_token := None, d_status := None, d_text_status := None, d_code := None,
       d_parent := None, d_blocked := None, d_friends := None,
       d_pendings_outgoing := None, d_pendings_incoming := None\<rparr>"
| "apply_update (Set_deleted b) d = d\<lparr>d_deleted := Some b\<rparr>"

text \<open>
  \<open>UpdateOne({"_id": x}, u)\<close>: the first document whose \<open>_id\<close> is \<open>x\<close> is updated;
  with no match nothing happens (there is no upsert).
\<close>

datatype write_op = UpdateOne oid update

fun update_one :: "oid \<Rightarrow> update \<Rightarrow> users_db \<Rightarrow> users_db" where
  "update_one x u [] = []"
| "update_one x u (d # ds) =
     (if d_id d = x then apply_update u d # ds else d # update_one x u ds)"

fun apply_write :: "users_db \<Rightarrow> write_op \<Rightarrow> users_db" where
  "apply_write db (UpdateOne x u) = update_one x u db"

text \<open>
  The argument of \<open>bulk_write\<close> is a Python sequence, and the code passes both kinds:
  a list in the relationship operations, a tuple in \<open>delete_user\<close>. The driver checks
  the argument first and raises \<open>TypeError\<close> for anything that is not a list, before
  any write; a list is executed in order, one operation after the other. A call
  returns what it returns (\<open>Inr ()\<close>) or raises (\<open>Inl e\<close>), together with the collection
  after the call.
\<close>

datatype 'a py_sequence = PyList "'a list" | PyTuple "'a list"

type_synonym outcome = "(error + unit) \<times> users_db"

definition bulk_write :: "write_op py_sequence \<Rightarrow> users_db \<Rightarrow> outcome" where
  "bulk_write requests db =
     (case requests of
        PyTuple ops \<Rightarrow> (Inl TypeError, db)
      | PyList ops \<Rightarrow> (Inr (), foldl apply_write db ops))"

section \<open>Relationship engine\<close>

text \<open>
  \<open>_valid_user_id\<close> and \<open>_check_blocked\<close> count matching documents and return
  \<open>bool(count)\<close>.
\<close>

definition valid_user_id :: "users_db \<Rightarrow> oid \<Rightarrow> bool \<Rightarrow> bool" where
  "valid_user_id db user_id b =
     (count_documents
        (\<lambda>d. d_id d = user_id \<and> d_bot d = Some b \<and> d_deleted d = None) db \<noteq> 0)"

definition check_blocked :: "users_db \<Rightarrow> oid \<Rightarrow> oid \<Rightarrow> bool" where
  "check_blocked db check_user_id is_blocked =
     (count_documents
        (\<lambda>d. d_id d = check_user_id \<and>
             (case d_blocked d of None \<Rightarrow> False | Some xs \<Rightarrow> is_blocked \<in> set xs)) db \<noteq> 0)"

text \<open>
  Every operation takes the acting user's loaded object \<open>self\<close> and the collection, and
  returns what the call returns (\<open>Inr ()\<close>) or raises (\<open>Inl e\<close>) together with the
  collection after the call.
\<close>

definition send_friend_request :: "UserModel \<Rightarrow> oid \<Rightarrow> users_db \<Rightarrow> outcome" where
  "send_friend_request self to_user_id db =
     (if bot_flag self then (Inl UnavailableForBots, db)
      else if \<not> valid_user_id db to_user_id False then (Inl InvalidUser, db)
      else if check_blocked db to_user_id (uid self) then (Inl InvalidUser, db)
      else if to_user_id \<in> set (blocked self) then (Inl InvalidUser, db)
      else if to_user_id \<in> set (pendings_incoming self) \<or>
              to_user_id \<in> set (pendings_outgoing self) \<or>
              to_user_id \<in> set (friends self) then (Inl InvalidUser, db)
      else bulk_write (PyList
              [UpdateOne (uid self) (Push Pendings_outgoing to_user_id),
               UpdateOne to_user_id (Push Pendings_incoming (uid self))]) db)"

definition response_friend_request :: "UserModel \<Rightarrow> oid \<Rightarrow> bool \<Rightarrow> users_db \<Rightarrow> outcome" where
  "response_friend_request self user_id confirm db =
     (if bot_flag self then (Inl UnavailableForBots, db)
      else if user_id \<notin> set (pendings_incoming self) then (Inl UserNotInGroup, db)
      else bulk_write (PyList
              ([UpdateOne user_id (Pull Pendings_outgoing (uid self)),
                UpdateOne (uid self) (Pull Pendings_incoming user_id)] @
               (if confirm
                then [UpdateOne (uid self) (Push Friends user_id),
                      UpdateOne user_id (Push Friends (uid self))]
                else []))) db)"

definition cancel_friend_request :: "UserModel \<Rightarrow> oid \<Rightarrow> users_db \<Rightarrow> outcome" where
  "cancel_friend_request self user_id db =
     (if bot_flag self then (Inl UnavailableForBots, db)
      else if user_id \<notin> set (pendings_outgoing self) then (Inl UserNotInGroup, db)
      else bulk_write (PyList
              [UpdateOne (uid self) (Pull Pendings_outgoing user_id),
               UpdateOne user_id (Pull Pendings_incoming (uid self))]) db)"

definition delete_friend :: "UserModel \<Rightarrow> oid \<Rightarrow> users_db \<Rightarrow> outcome" where
  "delete_friend self user_id db =
     (if bot_flag self then (Inl UnavailableForBots, db)
      else if user_id \<notin> set (friends self) then (Inl UserNotInGroup, db)
      else bulk_write (PyList
              [UpdateOne (uid self) (Pull Friends user_id),
               UpdateOne user_id (Pull Friends (uid self))]) db)"

definition block_user :: "UserModel \<Rightarrow> oid \<Rightarrow> users_db \<Rightarrow> outcome" where
  "block_user self blocking db =
     (if \<not> valid_user_id db blocking False \<or> blocking \<in> set (blocked self)
      then (Inl UserNotInGroup, db)
      else bulk_write (PyList
              ([UpdateOne (uid self) (Push Blocked blocking)] @
               (if blocking \<in> set (pendings_incoming self)
                then [UpdateOne (uid self) (Pull Pendings_outgoing blocking),
                      UpdateOne blocking (Pull Pendings_incoming (uid self))]
                else []) @
               (if blocking \<in> set (pendings_outgoing self)
                then [UpdateOne blocking (Pull Pendings_outgoing (uid self)),
                      UpdateOne (uid self) (Pull Pendings_incoming blocking)]
                else []) @
               (if blocking \<in> set (friends self)
                then [UpdateOne (uid self) (Pull Friends blocking),
                      UpdateOne blocking (Pull Friends (uid self))]
                else []))) db)"

definition unblock_user :: "UserModel \<Rightarrow> oid \<Rightarrow> users_db \<Rightarrow> outcome" where
  "unblock_user self unblocking db =
     (if unblocking \<notin> set (blocked self) then (Inl UserNotInGroup, db)
      else (Inr (), update_one (uid self) (Pull Blocked unblocking) db))"

section \<open>Account deletion and bot registration\<close>

text \<open>
  \<open>delete_user\<close> builds a batch that unsets the account's fields and marks the
  document deleted, never removing it. It builds the batch as a tuple, so the call
  of \<open>bulk_write\<close> raises and nothing is written.
\<close>

definition delete_user :: "UserModel \<Rightarrow> users_db \<Rightarrow> outcome" where
  "delete_user self db =
     bulk_write (PyTuple [UpdateOne (uid self) Unset_account,
                          UpdateOne (uid self) (Set_deleted True)]) db"

text \<open>
  \<open>registrate_bot\<close>: the store's fresh \<open>inserted_id\<close>, the random token of
  \<open>generate_token\<close> and the clock's \<open>utcnow\<close> are parameters. The call counts the
  parent's documents that have no \<open>deleted\<close> field, raises \<open>ValueError\<close> when the count
  exceeds 20, and otherwise inserts the new document and returns its object.
\<close>

definition registrate_bot ::
  "oid \<Rightarrow> string \<Rightarrow> nat \<Rightarrow> string \<Rightarrow> oid \<Rightarrow> users_db \<Rightarrow> (error + UserModel) \<times> users_db" where
  "registrate_bot inserted_id new_token now nick' parent' db =
     (let has_number_of_bots =
            count_documents (\<lambda>d. d_parent d = Some parent' \<and> d_deleted d = None) db
      in if has_number_of_bots > 20 then (Inl ValueError, db)
         else
           (let new_user = \<lparr>
                  d_id = inserted_id, d_nick = Some nick', d_created_at = Some now,
                  d_bot = Some True, d_deleted = None, d_token = Some new_token,
                  d_status = Some Online, d_text_status = None, d_code = None,
                  d_parent = Some parent', d_blocked = Some [], d_friends = Some [],
                  d_pendings_outgoing = Some [], d_pendings_incoming = Some [],
                  d_salt = None, d_login = None, d_password = None\<rparr>
            in (UserModel_init new_user, db @ [new_user])))"

section \<open>Stored relation sets and loaded actors\<close>

text \<open>
  \<open>rel f db x\<close> is the relation array \<open>f\<close> stored for user \<open>x\<close> (empty when the user or
  the field is missing). \<open>exclude_auth\<close> is the projection \<open>authorize\<close> fetches with, and
  \<open>loaded db self\<close> says that \<open>self\<close> is the object \<open>authorize\<close> builds from the stored
  document of its user: the actor of a request, with its current relation sets.
\<close>

definition rel :: "relfield \<Rightarrow> users_db \<Rightarrow> oid \<Rightarrow> oid list" where
  "rel f db x =
     (case find_one (by_id x) db of
        None \<Rightarrow> []
      | Some d \<Rightarrow> (case get_rel f d of None \<Rightarrow> [] | Some xs \<Rightarrow> xs))"

definition exists_user :: "users_db \<Rightarrow> oid \<Rightarrow> bool" where
  "exists_user db x = (find_one (by_id x) db \<noteq> None)"

definition exclude_auth :: "user_doc \<Rightarrow> user_doc" where
  "exclude_auth d = d\<lparr>d_login := None, d_password := None, d_salt := None\<rparr>"

definition loaded :: "users_db \<Rightarrow> UserModel \<Rightarrow> bool" where
  "loaded db self =
     (case find_one (by_id (uid self)) db of
        None \<Rightarrow> False
      | Some d \<Rightarrow> UserModel_init (exclude_auth d) = Inr self)"

text \<open>
  What the claims say about a counterpart: it resolves to an existing, non-deleted,
  non-bot user; its document is marked deleted; the collection has one document per
  \<open>_id\<close>. \<open>edges_between db a b\<close> lists every relation edge stored between the two
  users, as triples of owner, relation array and member.
\<close>

definition resolves :: "users_db \<Rightarrow> oid \<Rightarrow> bool" where
  "resolves db x =
     (case find_one (by_id x) db of
        None \<Rightarrow> False
      | Some d \<Rightarrow> d_bot d = Some False \<and> d_deleted d = None)"

definition is_deleted :: "users_db \<Rightarrow> oid \<Rightarrow> bool" where
  "is_deleted db x =
     (case find_one (by_id x) db of None \<Rightarrow> False | Some d \<Rightarrow> d_deleted d \<noteq> None)"

definition unique_ids :: "users_db \<Rightarrow> bool" where
  "unique_ids db = distinct (map d_id db)"

definition edges_between :: "users_db \<Rightarrow> oid \<Rightarrow> oid \<Rightarrow> (oid \<times> relfield \<times> oid) set" where
  "edges_between db a b =
     set [(x, f, y).
            (x, y) \<leftarrow> [(a, b), (b, a)],
            f \<leftarrow> [Blocked, Friends, Pendings_outgoing, Pendings_incoming],
            y \<in> set (rel f db x)]"

text \<open>
  The invariant the relation arrays are kept in: a friendship and a pending request
  between two users are stored on both documents. \<open>related db a b\<close> says that \<open>b\<close> is
  in one of \<open>a\<close>'s pending or friends arrays.
\<close>

definition matched :: "users_db \<Rightarrow> oid \<Rightarrow> oid \<Rightarrow> bool" where
  "matched db a b =
     ((b \<in> set (rel Friends db a)) = (a \<in> set (rel Friends db b)) \<and>
      (b \<in> set (rel Pendings_outgoing db a)) = (a \<in> set (rel Pendings_incoming db b)) \<and>
      (b \<in> set (rel Pendings_incoming db a)) = (a \<in> set (rel Pendings_outgoing db b)))"

definition related :: "users_db \<Rightarrow> oid \<Rightarrow> oid \<Rightarrow> bool" where
  "related db a b =
     (b \<in> set (rel Pendings_incoming db a) \<or> b \<in> set (rel Pendings_outgoing db a) \<or>
      b \<in> set (rel Friends db a))"

section \<open>Authentication\<close>

text \<open>
  \<open>_get_salt_hashed_login\<close> subscripts the result of \<open>find_one\<close>: with no document for
  the login the result is \<open>None\<close> and the subscript raises \<open>TypeError\<close>; a document
  without \<open>salt\<close> gives \<open>KeyError\<close>.
\<close>

definition get_salt_hashed_login :: "users_db \<Rightarrow> string \<Rightarrow> error + string" where
  "get_salt_hashed_login db login =
     (case find_one (\<lambda>d. d_login d = Some login) db of
        None \<Rightarrow> Inl TypeError
      | Some d \<Rightarrow> (case d_salt d of None \<Rightarrow> Inl KeyError | Some s \<Rightarrow> Inr s))"

text \<open>
  \<open>authorize\<close>. The library functions are parameters: \<open>sha256_hex s\<close> stands for
  \<open>sha256(s.encode()).hexdigest()\<close> and \<open>pbkdf2_hex p s n\<close> for
  \<open>pbkdf2_hmac('sha256', p.encode(), s.encode(), n).hex()\<close>. A non-empty token takes
  the token path; otherwise a non-empty login and password take the password path;
  otherwise the call raises \<open>ValueError\<close>.
\<close>

definition authorize ::
  "(string \<Rightarrow> string) \<Rightarrow> (string \<Rightarrow> string \<Rightarrow> nat \<Rightarrow> string) \<Rightarrow>
   users_db \<Rightarrow> string \<Rightarrow> string \<Rightarrow> string \<Rightarrow> error + UserModel" where
  "authorize sha256_hex pbkdf2_hex db login password token' =
     (if token' \<noteq> [] then
        (case find_one (\<lambda>d. d_token d = Some token') db of
           None \<Rightarrow> Inl InvalidUser
         | Some user \<Rightarrow> UserModel_init (exclude_auth user))
      else if login \<noteq> [] \<and> password \<noteq> [] then
        (let login = sha256_hex login in
         case get_salt_hashed_login db login of
           Inl e \<Rightarrow> Inl e
         | Inr salt \<Rightarrow>
            (let password = pbkdf2_hex password salt 100000 in
             case find_one (\<lambda>d. d_login d = Some login \<and> d_password d = Some password) db of
               None \<Rightarrow> Inl InvalidUser
             | Some user \<Rightarrow> UserModel_init (exclude_auth user)))
      else Inl ValueError)"

section \<open>Public listings\<close>

text \<open>
  \<open>EXCLUDE_PUBLIC\<close> is the projection of the listings: it drops the eleven fields it
  names. \<open>sort("nick", -1)\<close> orders by \<open>nick\<close> descending, a missing \<open>nick\<close> below every
  string; the store fixes no order among equal keys.
\<close>

definition exclude_public :: "user_doc \<Rightarrow> user_doc" where
  "exclude_public d =
     d\<lparr>d_code := None, d_salt := None, d_token := None, d_login := None,
       d_password := None, d_status := None, d_parent := None, d_blocked := None,
       d_friends := None, d_pendings_outgoing := None, d_pendings_incoming := None\<rparr>"

definition sort_nick_desc :: "user_doc list \<Rightarrow> user_doc list" where
  "sort_nick_desc ds = rev (sort_key d_nick ds)"

text \<open>
  The dictionary \<open>public_dict\<close> builds: six keys, and \<open>deleted\<close> only when the object's
  flag is set.
\<close>

record public_profile =
  p_id :: oid
  p_status :: status
  p_text_status :: string
  p_bot :: bool
  p_nick :: string
  p_created_at :: nat
  p_deleted :: "bool option"

definition public_dict :: "UserModel \<Rightarrow> public_profile" where
  "public_dict self = \<lparr>
     p_id = uid self, p_status = status_of self, p_text_status = text_status self,
     p_bot = bot_flag self, p_nick = nick self, p_created_at = created_at self,
     p_deleted = (if deleted self then Some True else None)\<rparr>"

text \<open>
  The loop of \<open>get_friends\<close> and \<open>get_blocked\<close>: each fetched document goes through
  the constructor, which may raise, and the public dictionary of the object is
  appended.
\<close>

fun users_objects :: "user_doc list \<Rightarrow> error + public_profile list" where
  "users_objects [] = Inr []"
| "users_objects (user # users) =
     (case UserModel_init user of
        Inl e \<Rightarrow> Inl e
      | Inr u \<Rightarrow>
         (case users_objects users of
            Inl e \<Rightarrow> Inl e
          | Inr ps \<Rightarrow> Inr (public_dict u # ps)))"

definition get_friends :: "UserModel \<Rightarrow> oid list \<Rightarrow> users_db \<Rightarrow> error + public_profile list" where
  "get_friends self fetch_friends db =
     (if bot_flag self then Inr []
      else users_objects
             (sort_nick_desc (find_docs (\<lambda>d. d_id d \<in> set fetch_friends) exclude_public db)))"

definition get_blocked :: "UserModel \<Rightarrow> oid list \<Rightarrow> users_db \<Rightarrow> error + public_profile list" where
  "get_blocked self fetch_blocked db =
     users_objects (find_docs (\<lambda>d. d_id d \<in> set fetch_blocked) exclude_public db)"

text \<open>
  \<open>stripped d\<close>: the document carries none of the fields the projection drops.
  \<open>complete_docs db\<close>: every stored document has the two fields the constructor
  requires, \<open>nick\<close> and \<open>created_at\<close>. \<open>bots_of p db\<close> is the count \<open>registrate_bot\<close>
  takes: the documents with parent \<open>p\<close> and no \<open>deleted\<close> field.
\<close>

definition stripped :: "user_doc \<Rightarrow> bool" where
  "stripped d =
     (d_status d = None \<and> d_parent d = None \<and> d_blocked d = None \<and> d_friends d = None \<and>
      d_pendings_outgoing d = None \<and> d_pendings_incoming d = None \<and>
      d_salt d = None \<and> d_login d = None \<and> d_password d = None \<and>
      d_token d = None \<and> d_code d = None)"

definition complete_docs :: "users_db \<Rightarrow> bool" where
  "complete_docs db = list_all (\<lambda>d. d_nick d \<noteq> None \<and> d_created_at d \<noteq> None) db"

definition bots_of :: "oid \<Rightarrow> users_db \<Rightarrow> nat" where
  "bots_of p db = count_documents (\<lambda>d. d_parent d = Some p \<and> d_deleted d = None) db"

section \<open>Delivery loop\<close>

text \<open>
  \<open>WebsocketNotifier\<close> of \<open>routes/ws_route.py\<close>: the connection's \<open>message_pool\<close>, and
  what \<open>websocket.send\<close> has put on the wire (\<open>sent\<close>). \<open>enqueued\<close> is a history
  variable: every message ever put into the pool, in order; the loop never reads it.

  Modelled from the spec: the code that fills \<open>message_pool\<close> (the class \<open>User\<close> of
  \<open>user_view\<close>) is not among the sources; by the spec a connection owns a FIFO queue,
  so \<open>enqueue\<close> appends at the tail.
\<close>

record 'm connection =
  message_pool :: "'m list"
  sent :: "string list"
  enqueued :: "'m list"

definition enqueue :: "'m list \<Rightarrow> 'm connection \<Rightarrow> 'm connection" where
  "enqueue ms c = c\<lparr>message_pool := message_pool c @ ms, enqueued := enqueued c @ ms\<rparr>"

text \<open>
  The loop shares its thread with the other tasks and yields at each \<open>await\<close>: at
  every \<open>websocket.send\<close> and at the \<open>sleep\<close>. What the other tasks do to the connection
  during one cycle is given by \<open>on_send\<close> (the messages enqueued while the first,
  second, ... send is awaited), \<open>on_sleep\<close> (those enqueued during the idle interval)
  and \<open>cancel_at\<close> (the number of the \<open>await\<close>, from 0, at which the task is cancelled,
  if it is).
\<close>

record 'm cycle_events =
  on_send :: "'m list list"
  on_sleep :: "'m list"
  cancel_at :: "nat option"

text \<open>
  The \<open>for\<close> loop over \<open>range(message_pool_length)\<close>: \<open>pop(0)\<close> raises \<open>IndexError\<close> on an
  empty pool; the popped message is sent as \<open>str(message)\<close>; a cancelled \<open>await\<close> raises
  \<open>CancelledError\<close> before the send completes.
\<close>

fun flush ::
  "('m \<Rightarrow> string) \<Rightarrow> nat \<Rightarrow> 'm list list \<Rightarrow> nat option \<Rightarrow> 'm connection \<Rightarrow>
   (error + unit) \<times> 'm connection" where
  "flush str 0 arrivals cancel c = (Inr (), c)"
| "flush str (Suc n) arrivals cancel c =
     (case message_pool c of
        [] \<Rightarrow> (Inl IndexError, c)
      | message # rest \<Rightarrow>
         (if cancel = Some 0 then (Inl CancelledError, c\<lparr>message_pool := rest\<rparr>)
          else flush str n (tl arrivals) (map_option (\<lambda>k. k - 1) cancel)
                 (enqueue (case arrivals of [] \<Rightarrow> [] | ms # _ \<Rightarrow> ms)
                    (c\<lparr>message_pool := rest, sent := sent c @ [str message]\<rparr>))))"

text \<open>
  One pass of the \<open>while\<close> body: the pool's length is read once, the flush runs, then
  the loop sleeps. \<open>CancelledError\<close> is caught and breaks the loop (\<open>Ended\<close>); any other
  exception leaves the coroutine (\<open>Raised\<close>). \<open>run\<close> is the loop over a given number of
  cycles.
\<close>

datatype loop_state = Running | Ended | Raised error

definition cycle ::
  "('m \<Rightarrow> string) \<Rightarrow> 'm cycle_events \<Rightarrow> 'm connection \<Rightarrow> loop_state \<times> 'm connection" where
  "cycle str ev c =
     (let message_pool_length = length (message_pool c) in
      case flush str message_pool_length (on_send ev) (cancel_at ev) c of
        (Inl e, c') \<Rightarrow> (if e = CancelledError then (Ended, c') else (Raised e, c'))
      | (Inr u, c') \<Rightarrow>
          (if cancel_at ev = Some message_pool_length then (Ended, c')
           else (Running, enqueue (on_sleep ev) c')))"

fun run ::
  "('m \<Rightarrow> string) \<Rightarrow> 'm cycle_events list \<Rightarrow> 'm connection \<Rightarrow> loop_state \<times> 'm connection" where
  "run str [] c = (Running, c)"
| "run str (ev # evs) c =
     (case cycle str ev c of
        (Running, c') \<Rightarrow> run str evs c'
      | (st, c') \<Rightarrow> (st, c'))"

text \<open>
  \<open>in_order\<close>: what has been sent, followed by what is still queued, is what has been
  enqueued, in that order. \<open>uncancelled\<close>: the cycle is not cancelled.
\<close>

definition in_order :: "('m \<Rightarrow> string) \<Rightarrow> 'm connection \<Rightarrow> bool" where
  "in_order str c = (sent c @ map str (message_pool c) = map str (enqueued c))"

definition uncancelled :: "'m cycle_events \<Rightarrow> bool" where
  "uncancelled ev = (cancel_at ev = None)"

section \<open>Sample data\<close>

text \<open>
  A stored human account with given relation arrays, as \<open>registrate\<close> inserts it and the
  relationship operations update it, and the object \<open>authorize\<close> builds from it. The
  closed instances of the theorems below are stated on collections of such documents.
\<close>

definition sample_user :: "oid \<Rightarrow> string \<Rightarrow> oid list \<Rightarrow> oid list \<Rightarrow> oid list \<Rightarrow> oid list \<Rightarrow> user_doc" where
  "sample_user i n bl fr po pi = \<lparr>
     d_id = i, d_nick = Some n, d_created_at = Some 0, d_bot = Some False,
     d_deleted = None, d_token = Some ''tok'', d_status = Some Online,
     d_text_status = None, d_code = None, d_parent = None,
     d_blocked = Some bl, d_friends = Some fr,
     d_pendings_outgoing = Some po, d_pendings_incoming = Some pi,
     d_salt = Some ''salt'', d_login = Some n, d_password = Some ''digest''\<rparr>"

definition sample_model :: "oid \<Rightarrow> string \<Rightarrow> oid list \<Rightarrow> oid list \<Rightarrow> oid list \<Rightarrow> oid list \<Rightarrow> UserModel" where
  "sample_model i n bl fr po pi = \<lparr>
     uid = i, nick = n, created_at = 0, bot_flag = False, deleted = False,
     token = Some ''tok'', status_of = Online, text_status = [], code = None,
     parent = None, blocked = bl, friends = fr,
     pendings_outgoing = po, pendings_incoming = pi\<rparr>"

definition sample_bot :: "oid \<Rightarrow> string \<Rightarrow> oid \<Rightarrow> user_doc" where
  "sample_bot i n p = \<lparr>
     d_id = i, d_nick = Some n, d_created_at = Some 0, d_bot = Some True,
     d_deleted = None, d_token = Some ''tok'', d_status = Some Online,
     d_text_status = None, d_code = None, d_parent = Some p,
     d_blocked = Some [], d_friends = Some [],
     d_pendings_outgoing = Some [], d_pendings_incoming = Some [],
     d_salt = None, d_login = None, d_password = None\<rparr>"

definition sample_bot_model :: "oid \<Rightarrow> string \<Rightarrow> oid \<Rightarrow> UserModel" where
  "sample_bot_model i n p = \<lparr>
     uid = i, nick = n, created_at = 0, bot_flag = True, deleted = False,
     token = Some ''tok'', status_of = Online, text_status = [], code = None,
     parent = Some p, blocked = [], friends = [],
     pendings_outgoing = [], pendings_incoming = []\<rparr>"

text \<open>Ann (1) and Bob (2) with no relation; Ann before and after she blocks Bob.\<close>

definition strangers :: users_db where
  "strangers = [sample_user 1 ''Ann'' [] [] [] [], sample_user 2 ''Bob'' [] [] [] []]"

definition ann :: UserModel where
  "ann = sample_model 1 ''Ann'' [] [] [] []"

definition ann_blocking :: UserModel where
  "ann_blocking = sample_model 1 ''Ann'' [2] [] [] []"

text \<open>Bob (2) has sent Ann (1) a friend request; Ann as loaded from that state.\<close>

definition bob_asked_ann :: users_db where
  "bob_asked_ann = [sample_user 1 ''Ann'' [] [] [] [2], sample_user 2 ''Bob'' [] [] [1] []]"

definition ann_asked :: UserModel where
  "ann_asked = sample_model 1 ''Ann'' [] [] [] [2]"

text \<open>
  A document marked deleted, as the batch of \<open>delete_user\<close> describes it: the \<open>$unset\<close>
  of the account's fields and the \<open>$set\<close> of \<open>deleted\<close>, applied to the document of
  \<open>x\<close>. The other documents keep whatever edges name \<open>x\<close>.
\<close>

definition mark_deleted :: "oid \<Rightarrow> users_db \<Rightarrow> users_db" where
  "mark_deleted x db = update_one x (Set_deleted True) (update_one x Unset_account db)"

text \<open>
  Ann (1) and Bob (2) were friends and Bob's document is marked deleted: Ann's
  \<open>friends\<close> still names him. \<open>bob_deleted\<close> is the object \<open>authorize\<close> builds from
  Bob's document.
\<close>

definition friends_db :: users_db where
  "friends_db = [sample_user 1 ''Ann'' [] [2] [] [], sample_user 2 ''Bob'' [] [1] [] []]"

definition bob_gone :: users_db where
  "bob_gone = mark_deleted 2 friends_db"

definition bob_deleted :: UserModel where
  "bob_deleted = \<lparr>
     uid = 2, nick = ''Bob'', created_at = 0, bot_flag = False, deleted = True,
     token = None, status_of = Offline, text_status = [], code = None,
     parent = None, blocked = [], friends = [],
     pendings_outgoing = [], pendings_incoming = []\<rparr>"

text \<open>
  Ann (1) had Bob (2) as a friend, a request from Cid (3) and a request to Dan (4);
  the documents of the three are marked deleted. Ann's arrays still name them, and
  \<open>ann_stale\<close> is Ann as loaded from that state.
\<close>

definition three_gone :: users_db where
  "three_gone =
     mark_deleted 4 (mark_deleted 3 (mark_deleted 2
       [sample_user 1 ''Ann'' [] [2] [4] [3], sample_user 2 ''Bob'' [] [1] [] [],
        sample_user 3 ''Cid'' [] [] [1] [], sample_user 4 ''Dan'' [] [] [] [1]]))"

definition ann_stale :: UserModel where
  "ann_stale = sample_model 1 ''Ann'' [] [2] [4] [3]"

text \<open>Ann (1) and twenty bots (2 to 21) she owns.\<close>

definition twenty_bots :: users_db where
  "twenty_bots = sample_user 1 ''Ann'' [] [] [] [] # map (\<lambda>i. sample_bot i ''bot'' 1) [2..<22]"

text \<open>
  Stand-ins for the two hash functions, and a collection with Ann registered under
  the login \<open>ann\<close> and the password \<open>secret\<close>.
\<close>

definition toy_sha256 :: "string \<Rightarrow> string" where
  "toy_sha256 s = ''#'' @ s"

definition toy_pbkdf2 :: "string \<Rightarrow> string \<Rightarrow> nat \<Rightarrow> string" where
  "toy_pbkdf2 pw salt n = (if n = 100000 then pw @ ''$'' @ salt else [])"

definition registered :: users_db where
  "registered = [(sample_user 1 ''Ann'' [] [] [] [])
                   \<lparr>d_login := Some ''#ann'', d_salt := Some ''s1'',
                    d_password := Some ''secret$s1''\<rparr>]"

text \<open>
  A cycle in which nothing happens to the connection; a connection with two queued
  messages; a cycle in which a third message arrives during the first send.
\<close>

definition idle :: "'m cycle_events" where
  "idle = \<lparr>on_send = [], on_sleep = [], cancel_at = None\<rparr>"

definition two_queued :: "string connection" where
  "two_queued = \<lparr>message_pool = [''m1'', ''m2''], sent = [], enqueued = [''m1'', ''m2'']\<rparr>"

definition third_arrives :: "string cycle_events" where
  "third_arrives = \<lparr>on_send = [[''m3'']], on_sleep = [], cancel_at = None\<rparr>"

section \<open>Properties\<close>

subsection \<open>Updates and lookups\<close>

lemma d_id_set_rel [simp]: "d_id (set_rel f v d) = d_id d"
  by (cases f) simp_all

lemma get_rel_set_rel [simp]: "get_rel g (set_rel f v d) = (if g = f then v else get_rel g d)"
  by (cases f; cases g) simp_all

lemma d_id_apply_update [simp]: "d_id (apply_update u d) = d_id d"
  by (cases u) (simp_all split: option.splits)

lemma find_one_update_one:
  "find_one (by_id y) (update_one x u db) =
     (if y = x then map_option (apply_update u) (find_one (by_id x) db)
      else find_one (by_id y) db)"
  by (induction db) auto

lemma exists_user_update_one [simp]:
  "exists_user (update_one x u db) y = exists_user db y"
  by (simp add: exists_user_def find_one_update_one)

lemma get_rel_push:
  "get_rel g (apply_update (Push f v) d) =
     (if g = f then Some (case get_rel f d of None \<Rightarrow> [v] | Some xs \<Rightarrow> xs @ [v])
      else get_rel g d)"
  by simp

lemma get_rel_pull:
  "get_rel g (apply_update (Pull f v) d) =
     (if g = f then map_option (removeAll v) (get_rel f d) else get_rel g d)"
  by (simp split: option.splits)

lemma rel_push:
  "rel g (update_one x (Push f v) db) y =
     (if y = x \<and> g = f \<and> exists_user db x then rel f db x @ [v] else rel g db y)"
proof (cases "find_one (by_id x) db")
  case None
  then show ?thesis
    by (simp add: rel_def exists_user_def find_one_update_one)
next
  case (Some d)
  then show ?thesis
    by (simp add: rel_def exists_user_def find_one_update_one get_rel_push
             del: apply_update.simps split: option.splits)
qed

lemma rel_pull:
  "rel g (update_one x (Pull f v) db) y =
     (if y = x \<and> g = f then removeAll v (rel f db x) else rel g db y)"
proof (cases "find_one (by_id x) db")
  case None
  then show ?thesis
    by (simp add: rel_def find_one_update_one)
next
  case (Some d)
  then show ?thesis
    by (simp add: rel_def find_one_update_one get_rel_pull
             del: apply_update.simps split: option.splits)
qed

lemma UserModel_init_Inr:
  assumes "UserModel_init d = Inr m"
  shows "uid m = d_id d"
    and "bot_flag m = (case d_bot d of None \<Rightarrow> False | Some b \<Rightarrow> b)"
    and "blocked m = (case d_blocked d of None \<Rightarrow> [] | Some xs \<Rightarrow> xs)"
    and "friends m = (case d_friends d of None \<Rightarrow> [] | Some xs \<Rightarrow> xs)"
    and "pendings_outgoing m = (case d_pendings_outgoing d of None \<Rightarrow> [] | Some xs \<Rightarrow> xs)"
    and "pendings_incoming m = (case d_pendings_incoming d of None \<Rightarrow> [] | Some xs \<Rightarrow> xs)"
  using assms unfolding UserModel_init_def
  by (cases "d_nick d"; cases "d_created_at d"; auto split: if_splits)+

lemma loaded_rel:
  assumes "loaded db self"
  shows "blocked self = rel Blocked db (uid self)"
    and "friends self = rel Friends db (uid self)"
    and "pendings_outgoing self = rel Pendings_outgoing db (uid self)"
    and "pendings_incoming self = rel Pendings_incoming db (uid self)"
    and "exists_user db (uid self)"
proof -
  from assms obtain d where d: "find_one (by_id (uid self)) db = Some d"
    and m: "UserModel_init (exclude_auth d) = Inr self"
    by (auto simp: loaded_def split: option.splits)
  note f = UserModel_init_Inr[OF m]
  show "blocked self = rel Blocked db (uid self)"
    by (simp add: f(3) rel_def d exclude_auth_def)
  show "friends self = rel Friends db (uid self)"
    by (simp add: f(4) rel_def d exclude_auth_def)
  show "pendings_outgoing self = rel Pendings_outgoing db (uid self)"
    by (simp add: f(5) rel_def d exclude_auth_def)
  show "pendings_incoming self = rel Pendings_incoming db (uid self)"
    by (simp add: f(6) rel_def d exclude_auth_def)
  show "exists_user db (uid self)"
    by (simp add: exists_user_def d)
qed

lemma response_ok:
  assumes "loaded db self" and "\<not> bot_flag self" and "exists_user db a"
    and "a \<in> set (rel Pendings_incoming db (uid self))"
  shows "response_friend_request self a True db =
           (Inr (), update_one a (Push Friends (uid self))
                     (update_one (uid self) (Push Friends a)
                       (update_one (uid self) (Pull Pendings_incoming a)
                         (update_one a (Pull Pendings_outgoing (uid self)) db))))"
    and "response_friend_request self a False db =
           (Inr (), update_one (uid self) (Pull Pendings_incoming a)
                         (update_one a (Pull Pendings_outgoing (uid self)) db))"
  using assms(2,4) loaded_rel(4)[OF assms(1)]
  by (simp_all add: response_friend_request_def bulk_write_def)

lemmas eval_defs = send_friend_request_def response_friend_request_def
  cancel_friend_request_def delete_friend_def block_user_def unblock_user_def
  valid_user_id_def check_blocked_def count_documents_def bulk_write_def
  sample_user_def sample_model_def sample_bot_def sample_bot_model_def
  rel_def loaded_def exclude_auth_def UserModel_init_def exists_user_def
  strangers_def ann_def ann_blocking_def bob_asked_ann_def ann_asked_def

lemma errors_write_nothing:
  "fst (send_friend_request self x db) = Inl e \<Longrightarrow> snd (send_friend_request self x db) = db"
  "fst (response_friend_request self x c db) = Inl e \<Longrightarrow>
     snd (response_friend_request self x c db) = db"
  "fst (cancel_friend_request self x db) = Inl e \<Longrightarrow> snd (cancel_friend_request self x db) = db"
  "fst (delete_friend self x db) = Inl e \<Longrightarrow> snd (delete_friend self x db) = db"
  "fst (block_user self x db) = Inl e \<Longrightarrow> snd (block_user self x db) = db"
  "fst (unblock_user self x db) = Inl e \<Longrightarrow> snd (unblock_user self x db) = db"
  by (auto simp: send_friend_request_def response_friend_request_def
        cancel_friend_request_def delete_friend_def block_user_def unblock_user_def
        bulk_write_def split: if_splits)

lemma block_user_blocks:
  assumes "loaded db self" and "fst (block_user self b db) = Inr ()"
  shows "b \<in> set (rel Blocked (snd (block_user self b db)) (uid self))"
  using assms(2) loaded_rel(5)[OF assms(1)]
  by (simp add: block_user_def bulk_write_def rel_push rel_pull split: if_splits)


subsection \<open>Answering a friend request\<close>

text \<open>
  Claim C5. Let \<open>self\<close> be a loaded, non-bot actor B and \<open>a\<close> a stored user A. If A's
  request to B is pending (A is in B's \<open>pendings_incoming\<close> and B in A's
  \<open>pendings_outgoing\<close>), \<open>response_friend_request\<close> with \<open>confirm\<close> succeeds, removes
  both pending edges and leaves A and B in each other's \<open>friends\<close>; without \<open>confirm\<close>
  it succeeds, removes both pending edges and changes no \<open>friends\<close> array. If A is not
  in B's \<open>pendings_incoming\<close>, the call raises \<open>UserNotInGroup\<close> and writes nothing.
\<close>

theorem response_friend_request_correct:
  assumes "loaded db self" and "\<not> bot_flag self" and "exists_user db a"
  shows "(a \<in> set (rel Pendings_incoming db (uid self)) \<and>
          uid self \<in> set (rel Pendings_outgoing db a) \<longrightarrow>
            (case response_friend_request self a True db of (r, db') \<Rightarrow>
               r = Inr () \<and>
               a \<notin> set (rel Pendings_incoming db' (uid self)) \<and>
               uid self \<notin> set (rel Pendings_outgoing db' a) \<and>
               a \<in> set (rel Friends db' (uid self)) \<and>
               uid self \<in> set (rel Friends db' a)) \<and>
            (case response_friend_request self a False db of (r, db') \<Rightarrow>
               r = Inr () \<and>
               a \<notin> set (rel Pendings_incoming db' (uid self)) \<and>
               uid self \<notin> set (rel Pendings_outgoing db' a) \<and>
               (\<forall>x. rel Friends db' x = rel Friends db x))) \<and>
         (a \<notin> set (rel Pendings_incoming db (uid self)) \<longrightarrow>
            (\<forall>confirm. response_friend_request self a confirm db = (Inl UserNotInGroup, db)))"
proof (intro conjI impI allI)
  assume p: "a \<in> set (rel Pendings_incoming db (uid self)) \<and>
             uid self \<in> set (rel Pendings_outgoing db a)"
  note ok = response_ok[OF assms p[THEN conjunct1]]
  note ex = loaded_rel(5)[OF assms(1)]
  show "case response_friend_request self a True db of (r, db') \<Rightarrow>
               r = Inr () \<and>
               a \<notin> set (rel Pendings_incoming db' (uid self)) \<and>
               uid self \<notin> set (rel Pendings_outgoing db' a) \<and>
               a \<in> set (rel Friends db' (uid self)) \<and>
               uid self \<in> set (rel Friends db' a)"
    using ex assms(3) by (simp add: ok(1) rel_push rel_pull)
  show "case response_friend_request self a False db of (r, db') \<Rightarrow>
               r = Inr () \<and>
               a \<notin> set (rel Pendings_incoming db' (uid self)) \<and>
               uid self \<notin> set (rel Pendings_outgoing db' a) \<and>
               (\<forall>x. rel Friends db' x = rel Friends db x)"
    by (simp add: ok(2) rel_pull)
next
  fix confirm
  assume "a \<notin> set (rel Pendings_incoming db (uid self))"
  then show "response_friend_request self a confirm db = (Inl UserNotInGroup, db)"
    using assms(2) loaded_rel(4)[OF assms(1)]
    by (simp add: response_friend_request_def)
qed

theorem response_friend_request_correct_witness:
  "loaded [sample_user 1 ''Ann'' [] [] [2] [], sample_user 2 ''Bob'' [] [] [] [1],
           sample_user 3 ''Cid'' [] [] [] []] (sample_model 2 ''Bob'' [] [] [] [1]) \<and>
   \<not> bot_flag (sample_model 2 ''Bob'' [] [] [] [1]) \<and>
   (case response_friend_request (sample_model 2 ''Bob'' [] [] [] [1]) 1 True
        [sample_user 1 ''Ann'' [] [] [2] [], sample_user 2 ''Bob'' [] [] [] [1],
         sample_user 3 ''Cid'' [] [] [] []] of
      (r, db') \<Rightarrow> r = Inr () \<and> 1 \<in> set (rel Friends db' 2) \<and> 2 \<in> set (rel Friends db' 1) \<and>
        1 \<notin> set (rel Pendings_incoming db' 2) \<and> 2 \<notin> set (rel Pendings_outgoing db' 1)) \<and>
   response_friend_request (sample_model 2 ''Bob'' [] [] [] [1]) 3 True
        [sample_user 1 ''Ann'' [] [] [2] [], sample_user 2 ''Bob'' [] [] [] [1],
         sample_user 3 ''Cid'' [] [] [] []] =
     (Inl UserNotInGroup,
        [sample_user 1 ''Ann'' [] [] [2] [], sample_user 2 ''Bob'' [] [] [] [1],
         sample_user 3 ''Cid'' [] [] [] []])"
proof -
  let ?db = "[sample_user 1 ''Ann'' [] [] [2] [], sample_user 2 ''Bob'' [] [] [] [1],
              sample_user 3 ''Cid'' [] [] [] []]"
  let ?self = "sample_model 2 ''Bob'' [] [] [] [1]"
  have l: "loaded ?db ?self"
    by (simp add: loaded_def sample_user_def sample_model_def exclude_auth_def
          UserModel_init_def)
  have b: "\<not> bot_flag ?self" by (simp add: sample_model_def)
  have u: "uid ?self = 2" by (simp add: sample_model_def)
  have e1: "exists_user ?db 1" and e3: "exists_user ?db 3"
    by (simp_all add: exists_user_def sample_user_def)
  have p: "1 \<in> set (rel Pendings_incoming ?db 2) \<and> 2 \<in> set (rel Pendings_outgoing ?db 1)"
    by (simp add: rel_def sample_user_def)
  have n: "3 \<notin> set (rel Pendings_incoming ?db 2)"
    by (simp add: rel_def sample_user_def)
  from response_friend_request_correct[OF l b e1] p u
  have c1: "case response_friend_request ?self 1 True ?db of
      (r, db') \<Rightarrow> r = Inr () \<and> 1 \<in> set (rel Friends db' 2) \<and> 2 \<in> set (rel Friends db' 1) \<and>
        1 \<notin> set (rel Pendings_incoming db' 2) \<and> 2 \<notin> set (rel Pendings_outgoing db' 1)"
    by (auto simp only: split_beta)
  from response_friend_request_correct[OF l b e3] n u
  have c2: "response_friend_request ?self 3 True ?db = (Inl UserNotInGroup, ?db)"
    by simp
  from l b c1 c2 show ?thesis by blast
qed

subsection \<open>Bot actors\<close>

text \<open>
  Claim C2, as the code has it. \<open>block_user\<close> and \<open>unblock_user\<close> do not test the
  actor's \<open>bot\<close> flag: a bot that blocks a valid user succeeds and its \<open>blocked\<close>
  array grows.
\<close>

theorem bot_block_counterexample:
  "bot_flag (sample_bot_model 7 ''Bot'' 1) \<and>
   fst (block_user (sample_bot_model 7 ''Bot'' 1) 1 [sample_user 1 ''Ann'' [] [] [] [], sample_bot 7 ''Bot'' 1]) = Inr () \<and>
   rel Blocked [sample_user 1 ''Ann'' [] [] [] [], sample_bot 7 ''Bot'' 1] 7 = [] \<and>
   rel Blocked (snd (block_user (sample_bot_model 7 ''Bot'' 1) 1 [sample_user 1 ''Ann'' [] [] [] [], sample_bot 7 ''Bot'' 1])) 7 = [1]"
  by (simp add: eval_defs)

text \<open>
  Claim C2, amended. For an actor whose \<open>bot\<close> flag is set, \<open>send_friend_request\<close>,
  \<open>response_friend_request\<close>, \<open>cancel_friend_request\<close> and \<open>delete_friend\<close> raise
  \<open>UnavailableForBots\<close> and leave the collection as it was, whatever the counterpart
  and the stored state. \<open>block_user\<close> and \<open>unblock_user\<close> do for it what they do for
  the same actor with the flag cleared.
\<close>

theorem bot_actor_rejected:
  assumes "bot_flag self"
  shows "send_friend_request self x db = (Inl UnavailableForBots, db) \<and>
         response_friend_request self x confirm db = (Inl UnavailableForBots, db) \<and>
         cancel_friend_request self x db = (Inl UnavailableForBots, db) \<and>
         delete_friend self x db = (Inl UnavailableForBots, db) \<and>
         block_user self x db = block_user (self\<lparr>bot_flag := False\<rparr>) x db \<and>
         unblock_user self x db = unblock_user (self\<lparr>bot_flag := False\<rparr>) x db"
  using assms
  by (simp add: send_friend_request_def response_friend_request_def
        cancel_friend_request_def delete_friend_def block_user_def unblock_user_def)

theorem bot_actor_rejected_witness:
  "bot_flag (sample_bot_model 7 ''Bot'' 1) \<and>
   send_friend_request (sample_bot_model 7 ''Bot'' 1) 1 [sample_user 1 ''Ann'' [] [] [] [], sample_bot 7 ''Bot'' 1] = (Inl UnavailableForBots, [sample_user 1 ''Ann'' [] [] [] [], sample_bot 7 ''Bot'' 1]) \<and>
   response_friend_request (sample_bot_model 7 ''Bot'' 1) 1 True [sample_user 1 ''Ann'' [] [] [] [], sample_bot 7 ''Bot'' 1] = (Inl UnavailableForBots, [sample_user 1 ''Ann'' [] [] [] [], sample_bot 7 ''Bot'' 1]) \<and>
   cancel_friend_request (sample_bot_model 7 ''Bot'' 1) 1 [sample_user 1 ''Ann'' [] [] [] [], sample_bot 7 ''Bot'' 1] = (Inl UnavailableForBots, [sample_user 1 ''Ann'' [] [] [] [], sample_bot 7 ''Bot'' 1]) \<and>
   delete_friend (sample_bot_model 7 ''Bot'' 1) 1 [sample_user 1 ''Ann'' [] [] [] [], sample_bot 7 ''Bot'' 1] = (Inl UnavailableForBots, [sample_user 1 ''Ann'' [] [] [] [], sample_bot 7 ''Bot'' 1])"
proof -
  have b: "bot_flag (sample_bot_model 7 ''Bot'' 1)" by (simp add: sample_bot_model_def)
  from b bot_actor_rejected[OF b, of 1 "[sample_user 1 ''Ann'' [] [] [] [], sample_bot 7 ''Bot'' 1]" True]
  show ?thesis by simp
qed

subsection \<open>Validation before any write\<close>

text \<open>
  Claim C6. Whenever one of the six relationship operations raises, the collection it
  returns is the one it was given: every check precedes the write. And after a
  successful \<open>block_user\<close> by a loaded actor, the same call by the reloaded actor
  raises \<open>UserNotInGroup\<close> and writes nothing.
\<close>

theorem errors_leave_store_unchanged:
  "(fst (send_friend_request self x db) = Inl e \<longrightarrow>
      snd (send_friend_request self x db) = db) \<and>
   (fst (response_friend_request self x c db) = Inl e \<longrightarrow>
      snd (response_friend_request self x c db) = db) \<and>
   (fst (cancel_friend_request self x db) = Inl e \<longrightarrow>
      snd (cancel_friend_request self x db) = db) \<and>
   (fst (delete_friend self x db) = Inl e \<longrightarrow> snd (delete_friend self x db) = db) \<and>
   (fst (block_user self x db) = Inl e \<longrightarrow> snd (block_user self x db) = db) \<and>
   (fst (unblock_user self x db) = Inl e \<longrightarrow> snd (unblock_user self x db) = db) \<and>
   (loaded db self \<and> fst (block_user self x db) = Inr () \<and>
    loaded (snd (block_user self x db)) self' \<and> uid self' = uid self \<longrightarrow>
      block_user self' x (snd (block_user self x db)) =
        (Inl UserNotInGroup, snd (block_user self x db)))"
proof (intro conjI impI)
  assume a: "loaded db self \<and> fst (block_user self x db) = Inr () \<and>
    loaded (snd (block_user self x db)) self' \<and> uid self' = uid self"
  let ?db' = "snd (block_user self x db)"
  from a have "x \<in> set (rel Blocked ?db' (uid self))"
    by (simp add: block_user_blocks)
  moreover from a have "blocked self' = rel Blocked ?db' (uid self)"
    using loaded_rel(1)[of ?db' self'] by simp
  ultimately have "x \<in> set (blocked self')" by simp
  then show "block_user self' x ?db' = (Inl UserNotInGroup, ?db')"
    by (simp add: block_user_def)
qed (simp_all add: errors_write_nothing)


theorem errors_leave_store_unchanged_witness:
  "fst (unblock_user ann 2 strangers) = Inl UserNotInGroup \<and>
   snd (unblock_user ann 2 strangers) = strangers \<and>
   loaded strangers ann \<and>
   fst (block_user ann 2 strangers) = Inr () \<and>
   loaded (snd (block_user ann 2 strangers)) ann_blocking \<and>
   block_user ann_blocking 2 (snd (block_user ann 2 strangers)) =
     (Inl UserNotInGroup, snd (block_user ann 2 strangers))"
proof -
  have e: "fst (unblock_user ann 2 strangers) = Inl UserNotInGroup"
    by (simp add: eval_defs)
  have l: "loaded strangers ann" by (simp add: eval_defs)
  have f: "fst (block_user ann 2 strangers) = Inr ()" by (simp add: eval_defs)
  have l': "loaded (snd (block_user ann 2 strangers)) ann_blocking"
    by (simp add: eval_defs)
  have u: "uid ann_blocking = uid ann" by (simp add: eval_defs)
  note t = errors_leave_store_unchanged
    [of ann 2 strangers UserNotInGroup True ann_blocking]
  from t e have "snd (unblock_user ann 2 strangers) = strangers" by blast
  moreover from t l f l' u
  have "block_user ann_blocking 2 (snd (block_user ann 2 strangers)) =
     (Inl UserNotInGroup, snd (block_user ann 2 strangers))" by blast
  ultimately show ?thesis using e l f l' by blast
qed

subsection \<open>Blocking\<close>

text \<open>
  Claim C1 on the code. Bob (2) has a pending request to Ann (1): 2 is in Ann's
  \<open>pendings_incoming\<close> and 1 in Bob's \<open>pendings_outgoing\<close>. Ann blocks Bob. The call
  succeeds and 2 enters Ann's \<open>blocked\<close>, but both pending edges are still stored: the
  branch for \<open>pendings_incoming\<close> pulls from Ann's \<open>pendings_outgoing\<close> and Bob's
  \<open>pendings_incoming\<close>, the two arrays the edges are not in.
\<close>

theorem block_user_keeps_pending_edges:
  "loaded bob_asked_ann ann_asked \<and>
   fst (block_user ann_asked 2 bob_asked_ann) = Inr () \<and>
   rel Blocked (snd (block_user ann_asked 2 bob_asked_ann)) 1 = [2] \<and>
   rel Pendings_incoming (snd (block_user ann_asked 2 bob_asked_ann)) 1 = [2] \<and>
   rel Pendings_outgoing (snd (block_user ann_asked 2 bob_asked_ann)) 2 = [1]"
  by (simp add: eval_defs)

theorem block_user_keeps_pending_edges_witness:
  "2 \<in> set (rel Pendings_incoming (snd (block_user ann_asked 2 bob_asked_ann)) 1) \<and>
   2 \<in> set (rel Blocked (snd (block_user ann_asked 2 bob_asked_ann)) 1)"
  using block_user_keeps_pending_edges by simp

subsection \<open>Counting queries and stored relations\<close>

lemma find_one_None: "(find_one flt db = None) = (\<forall>d \<in> set db. \<not> flt d)"
  by (induction db) simp_all

lemma find_one_Some: "find_one flt db = Some d \<Longrightarrow> d \<in> set db \<and> flt d"
  by (induction db) (simp_all split: if_splits)

lemma unique_ids_eq:
  assumes "unique_ids db" and "d \<in> set db" and "d' \<in> set db" and "d_id d = d_id d'"
  shows "d = d'"
proof -
  from assms(1) have "inj_on d_id (set db)"
    by (simp add: unique_ids_def distinct_map)
  with assms(2-4) show ?thesis by (simp add: inj_on_def)
qed


lemma valid_user_id_iff:
  "valid_user_id db x b =
     (\<exists>d \<in> set db. d_id d = x \<and> d_bot d = Some b \<and> d_deleted d = None)"
  by (auto simp: valid_user_id_def count_documents_def filter_empty_conv)

lemma check_blocked_iff:
  "check_blocked db b a =
     (\<exists>d \<in> set db. d_id d = b \<and> (case d_blocked d of None \<Rightarrow> False | Some xs \<Rightarrow> a \<in> set xs))"
  by (auto simp: check_blocked_def count_documents_def filter_empty_conv)


lemma valid_user_id_resolves:
  assumes "unique_ids db"
  shows "valid_user_id db x False = resolves db x"
proof (cases "find_one (by_id x) db")
  case None
  then have "\<forall>d \<in> set db. d_id d \<noteq> x" by (simp add: find_one_None)
  then show ?thesis
    by (simp add: valid_user_id_iff resolves_def None)
next
  case (Some d)
  note m = find_one_Some[OF Some]
  show ?thesis
  proof
    assume "valid_user_id db x False"
    then obtain d' where d': "d' \<in> set db" "d_id d' = x"
      "d_bot d' = Some False" "d_deleted d' = None"
      by (auto simp: valid_user_id_iff)
    with m have "d' = d" using unique_ids_eq[OF assms, of d' d] by simp
    with d' show "resolves db x" by (simp add: resolves_def Some)
  next
    assume "resolves db x"
    with m show "valid_user_id db x False"
      by (auto simp: resolves_def Some valid_user_id_iff)
  qed
qed

lemma check_blocked_rel:
  assumes "unique_ids db"
  shows "check_blocked db b a = (a \<in> set (rel Blocked db b))"
proof (cases "find_one (by_id b) db")
  case None
  then have "\<forall>d \<in> set db. d_id d \<noteq> b" by (simp add: find_one_None)
  then show ?thesis
    by (simp add: check_blocked_iff rel_def None)
next
  case (Some d)
  note m = find_one_Some[OF Some]
  show ?thesis
  proof
    assume "check_blocked db b a"
    then obtain d' where d': "d' \<in> set db" "d_id d' = b"
      "case d_blocked d' of None \<Rightarrow> False | Some xs \<Rightarrow> a \<in> set xs"
      by (auto simp: check_blocked_iff)
    with m have "d' = d" using unique_ids_eq[OF assms, of d' d] by simp
    with d' show "a \<in> set (rel Blocked db b)"
      by (simp add: rel_def Some split: option.splits)
  next
    assume r: "a \<in> set (rel Blocked db b)"
    show "check_blocked db b a"
    proof (cases "d_blocked d")
      case None
      with r show ?thesis by (simp add: rel_def Some)
    next
      case (Some xs)
      with r have "a \<in> set xs" by (simp add: rel_def \<open>find_one (by_id b) db = Some d\<close>)
      with m Some show ?thesis unfolding check_blocked_iff
        by (intro bexI[of _ d]) simp_all
    qed
  qed
qed

lemma deleted_not_valid:
  assumes "is_deleted db b" and "unique_ids db"
  shows "\<not> valid_user_id db b False"
  using assms(1)
  by (simp add: valid_user_id_resolves[OF assms(2)] resolves_def is_deleted_def
        split: option.splits)

lemma send_friend_request_cases:
  assumes "loaded db self" and "\<not> bot_flag self" and "unique_ids db"
  shows "send_friend_request self b db =
     (if \<not> resolves db b \<or> uid self \<in> set (rel Blocked db b) \<or>
         b \<in> set (rel Blocked db (uid self)) \<or> related db (uid self) b
      then (Inl InvalidUser, db)
      else (Inr (), update_one b (Push Pendings_incoming (uid self))
                      (update_one (uid self) (Push Pendings_outgoing b) db)))"
  using assms(2) loaded_rel(1-4)[OF assms(1)]
  by (simp add: send_friend_request_def valid_user_id_resolves[OF assms(3)]
        check_blocked_rel[OF assms(3)] related_def bulk_write_def)

lemma resolves_exists: "resolves db b \<Longrightarrow> exists_user db b"
  by (auto simp: resolves_def exists_user_def split: option.splits)


lemma edges_after_send:
  assumes ea: "exists_user db a" and eb: "exists_user db b"
    and nb1: "a \<notin> set (rel Blocked db b)" and nb2: "b \<notin> set (rel Blocked db a)"
    and nr: "\<not> related db a b" and m: "matched db a b"
  shows "edges_between
           (update_one b (Push Pendings_incoming a)
              (update_one a (Push Pendings_outgoing b) db)) a b =
         {(a, Pendings_outgoing, b), (b, Pendings_incoming, a)}"
proof -
  from nr m have n: "b \<notin> set (rel Pendings_incoming db a)"
    "b \<notin> set (rel Pendings_outgoing db a)" "b \<notin> set (rel Friends db a)"
    "a \<notin> set (rel Pendings_incoming db b)"
    "a \<notin> set (rel Pendings_outgoing db b)" "a \<notin> set (rel Friends db b)"
    by (auto simp: related_def matched_def)
  show ?thesis
    using ea eb nb1 nb2 n
    by (auto simp: edges_between_def rel_push)
qed

lemmas eval_defs2 = eval_defs is_deleted_def unique_ids_def resolves_def
  related_def matched_def mark_deleted_def friends_db_def bob_gone_def bob_deleted_def
  three_gone_def ann_stale_def

lemma delete_user_raises: "delete_user self db = (Inl TypeError, db)"
  by (simp add: delete_user_def bulk_write_def)

lemma delete_friend_ok:
  assumes "loaded db self" and "\<not> bot_flag self"
    and "b \<in> set (rel Friends db (uid self))"
  shows "delete_friend self b db =
           (Inr (), update_one b (Pull Friends (uid self))
                     (update_one (uid self) (Pull Friends b) db))"
  using assms(2,3) loaded_rel(2)[OF assms(1)]
  by (simp add: delete_friend_def bulk_write_def)

lemma cancel_friend_request_ok:
  assumes "loaded db self" and "\<not> bot_flag self"
    and "b \<in> set (rel Pendings_outgoing db (uid self))"
  shows "cancel_friend_request self b db =
           (Inr (), update_one b (Pull Pendings_incoming (uid self))
                     (update_one (uid self) (Pull Pendings_outgoing b) db))"
  using assms(2,3) loaded_rel(3)[OF assms(1)]
  by (simp add: cancel_friend_request_def bulk_write_def)

lemma is_deleted_exists: "is_deleted db b \<Longrightarrow> exists_user db b"
  by (auto simp: is_deleted_def exists_user_def split: option.splits)

subsection \<open>Deleted counterparts\<close>

text \<open>
  Claim C9, as the code has it. The documents of Bob, Cid and Dan are marked deleted
  and Ann's arrays still name them. \<open>delete_friend\<close>, \<open>cancel_friend_request\<close> and
  \<open>response_friend_request\<close> do not look at the counterpart's document. Each of Ann's
  calls succeeds instead of failing: the first three remove the stale edge from her
  array, and accepting Cid's request also writes the friendship on both documents,
  the deleted one included.
\<close>

theorem stale_edges_served_counterexample:
  "is_deleted three_gone 2 \<and> is_deleted three_gone 3 \<and> is_deleted three_gone 4 \<and>
   loaded three_gone ann_stale \<and>
   rel Friends three_gone 1 = [2] \<and>
   fst (delete_friend ann_stale 2 three_gone) = Inr () \<and>
   rel Friends (snd (delete_friend ann_stale 2 three_gone)) 1 = [] \<and>
   rel Pendings_outgoing three_gone 1 = [4] \<and>
   fst (cancel_friend_request ann_stale 4 three_gone) = Inr () \<and>
   rel Pendings_outgoing (snd (cancel_friend_request ann_stale 4 three_gone)) 1 = [] \<and>
   rel Pendings_incoming three_gone 1 = [3] \<and>
   fst (response_friend_request ann_stale 3 False three_gone) = Inr () \<and>
   rel Pendings_incoming (snd (response_friend_request ann_stale 3 False three_gone)) 1 = [] \<and>
   rel Friends three_gone 3 = [] \<and>
   fst (response_friend_request ann_stale 3 True three_gone) = Inr () \<and>
   rel Friends (snd (response_friend_request ann_stale 3 True three_gone)) 1 = [2, 3] \<and>
   rel Friends (snd (response_friend_request ann_stale 3 True three_gone)) 3 = [1]"
  by (simp add: eval_defs2)

text \<open>
  Claim C9, amended. Let the document of \<open>b\<close> be marked deleted, in a collection with
  one document per \<open>_id\<close>. \<open>send_friend_request\<close> raises (\<open>InvalidUser\<close>, or
  \<open>UnavailableForBots\<close> for a bot actor) and \<open>block_user\<close> raises \<open>UserNotInGroup\<close>, both
  without a write, whatever the actor's loaded arrays hold. For a loaded actor that
  is not a bot and whose array still names \<open>b\<close>, the other three operations succeed:
  \<open>delete_friend\<close> removes \<open>b\<close> from the actor's \<open>friends\<close>, \<open>cancel_friend_request\<close>
  from its \<open>pendings_outgoing\<close>, \<open>response_friend_request\<close> from its
  \<open>pendings_incoming\<close>, and with \<open>confirm\<close> the latter leaves the two in each other's
  \<open>friends\<close>.
\<close>

theorem deleted_counterpart_operations:
  assumes "is_deleted db b" and "unique_ids db"
  shows "send_friend_request self b db =
           (Inl (if bot_flag self then UnavailableForBots else InvalidUser), db) \<and>
         block_user self b db = (Inl UserNotInGroup, db) \<and>
         (loaded db self \<and> \<not> bot_flag self \<and> b \<in> set (rel Friends db (uid self)) \<longrightarrow>
            (case delete_friend self b db of (r, db') \<Rightarrow>
               r = Inr () \<and> b \<notin> set (rel Friends db' (uid self)))) \<and>
         (loaded db self \<and> \<not> bot_flag self \<and>
          b \<in> set (rel Pendings_outgoing db (uid self)) \<longrightarrow>
            (case cancel_friend_request self b db of (r, db') \<Rightarrow>
               r = Inr () \<and> b \<notin> set (rel Pendings_outgoing db' (uid self)))) \<and>
         (loaded db self \<and> \<not> bot_flag self \<and>
          b \<in> set (rel Pendings_incoming db (uid self)) \<longrightarrow>
            (case response_friend_request self b False db of (r, db') \<Rightarrow>
               r = Inr () \<and> b \<notin> set (rel Pendings_incoming db' (uid self))) \<and>
            (case response_friend_request self b True db of (r, db') \<Rightarrow>
               r = Inr () \<and> b \<notin> set (rel Pendings_incoming db' (uid self)) \<and>
               b \<in> set (rel Friends db' (uid self)) \<and>
               uid self \<in> set (rel Friends db' b)))"
proof -
  note nv = deleted_not_valid[OF assms]
  note eb = is_deleted_exists[OF assms(1)]
  have 1: "send_friend_request self b db =
           (Inl (if bot_flag self then UnavailableForBots else InvalidUser), db)"
    using nv by (simp add: send_friend_request_def)
  have 2: "block_user self b db = (Inl UserNotInGroup, db)"
    using nv by (simp add: block_user_def)
  have 3: "case delete_friend self b db of (r, db') \<Rightarrow>
               r = Inr () \<and> b \<notin> set (rel Friends db' (uid self))"
    if "loaded db self \<and> \<not> bot_flag self \<and> b \<in> set (rel Friends db (uid self))"
    using that by (simp add: delete_friend_ok rel_pull)
  have 4: "case cancel_friend_request self b db of (r, db') \<Rightarrow>
               r = Inr () \<and> b \<notin> set (rel Pendings_outgoing db' (uid self))"
    if "loaded db self \<and> \<not> bot_flag self \<and>
        b \<in> set (rel Pendings_outgoing db (uid self))"
    using that by (simp add: cancel_friend_request_ok rel_pull)
  have 5: "case response_friend_request self b False db of (r, db') \<Rightarrow>
               r = Inr () \<and> b \<notin> set (rel Pendings_incoming db' (uid self))"
    if "loaded db self \<and> \<not> bot_flag self \<and>
        b \<in> set (rel Pendings_incoming db (uid self))"
    using that eb by (simp add: response_ok(2) rel_pull)
  have 6: "case response_friend_request self b True db of (r, db') \<Rightarrow>
               r = Inr () \<and> b \<notin> set (rel Pendings_incoming db' (uid self)) \<and>
               b \<in> set (rel Friends db' (uid self)) \<and>
               uid self \<in> set (rel Friends db' b)"
    if "loaded db self \<and> \<not> bot_flag self \<and>
        b \<in> set (rel Pendings_incoming db (uid self))"
    using that eb loaded_rel(5)[of db self]
    by (simp add: response_ok(1) rel_push rel_pull)
  show ?thesis
    by (intro conjI impI) (rule 1, rule 2, erule 3, erule 4, erule 5, erule 6)
qed

theorem deleted_counterpart_operations_witness:
  "is_deleted three_gone 2 \<and> unique_ids three_gone \<and>
   loaded three_gone ann_stale \<and> \<not> bot_flag ann_stale \<and>
   2 \<in> set (rel Friends three_gone 1) \<and>
   send_friend_request ann_stale 2 three_gone = (Inl InvalidUser, three_gone) \<and>
   block_user ann_stale 2 three_gone = (Inl UserNotInGroup, three_gone) \<and>
   fst (delete_friend ann_stale 2 three_gone) = Inr () \<and>
   2 \<notin> set (rel Friends (snd (delete_friend ann_stale 2 three_gone)) 1)"
proof -
  have d: "is_deleted three_gone 2" by (simp add: eval_defs2)
  have u: "unique_ids three_gone" by (simp add: eval_defs2)
  have l: "loaded three_gone ann_stale" by (simp add: eval_defs2)
  have b: "\<not> bot_flag ann_stale" by (simp add: eval_defs2)
  have i: "uid ann_stale = 1" by (simp add: eval_defs2)
  have f: "2 \<in> set (rel Friends three_gone 1)" by (simp add: eval_defs2)
  note t = deleted_counterpart_operations[OF d u, of ann_stale]
  from t b have 1: "send_friend_request ann_stale 2 three_gone = (Inl InvalidUser, three_gone)"
    by simp
  from t have 2: "block_user ann_stale 2 three_gone = (Inl UserNotInGroup, three_gone)"
    by simp
  from t l b f i
  have 3: "fst (delete_friend ann_stale 2 three_gone) = Inr () \<and>
     2 \<notin> set (rel Friends (snd (delete_friend ann_stale 2 three_gone)) 1)"
    by (auto simp only: split_beta)
  from d u l b f 1 2 3 show ?thesis by blast
qed

subsection \<open>Sending a friend request\<close>

text \<open>
  Claim C4, as the code has it. \<open>send_friend_request\<close> reads the actor's loaded arrays
  and the counterpart's \<open>blocked\<close>, never the counterpart's other arrays. Bob's
  document is marked deleted and has lost its arrays, Ann's \<open>friends\<close> still names
  him. Bob, loaded from his document, sends Ann a request: no failure condition
  holds, the call succeeds, and besides the pending pair the edge from Ann's
  \<open>friends\<close> to Bob is still stored between the two.
\<close>

theorem stale_edge_survives_counterexample:
  "loaded bob_gone bob_deleted \<and> \<not> bot_flag bob_deleted \<and> unique_ids bob_gone \<and>
   resolves bob_gone 1 \<and>
   2 \<notin> set (rel Blocked bob_gone 1) \<and> 1 \<notin> set (rel Blocked bob_gone 2) \<and>
   \<not> related bob_gone 2 1 \<and>
   fst (send_friend_request bob_deleted 1 bob_gone) = Inr () \<and>
   rel Pendings_outgoing (snd (send_friend_request bob_deleted 1 bob_gone)) 2 = [1] \<and>
   rel Pendings_incoming (snd (send_friend_request bob_deleted 1 bob_gone)) 1 = [2] \<and>
   rel Friends (snd (send_friend_request bob_deleted 1 bob_gone)) 1 = [2] \<and>
   (1, Friends, 2) \<in> edges_between (snd (send_friend_request bob_deleted 1 bob_gone)) 2 1"
  by (simp add: eval_defs2 edges_between_def)

text \<open>
  Claim C4, amended. Let \<open>self\<close> be a loaded, non-bot actor A in a collection with one
  document per \<open>_id\<close>. \<open>send_friend_request\<close> raises \<open>InvalidUser\<close> and writes nothing
  whenever \<open>b\<close> does not resolve to an existing, non-deleted, non-bot user, or B has
  blocked A, or A has blocked B, or B is in A's \<open>pendings_incoming\<close>,
  \<open>pendings_outgoing\<close> or \<open>friends\<close>. Otherwise it succeeds, and B is in A's
  \<open>pendings_outgoing\<close> and A in B's \<open>pendings_incoming\<close> afterwards. These two are the
  only edges stored between them when, before the call, the friends and pending
  edges of the pair were stored on both documents.
\<close>

theorem send_friend_request_correct:
  assumes "loaded db self" and "\<not> bot_flag self" and "unique_ids db"
  shows "(\<not> resolves db b \<or> uid self \<in> set (rel Blocked db b) \<or>
          b \<in> set (rel Blocked db (uid self)) \<or> related db (uid self) b \<longrightarrow>
            send_friend_request self b db = (Inl InvalidUser, db)) \<and>
         (\<not> (\<not> resolves db b \<or> uid self \<in> set (rel Blocked db b) \<or>
             b \<in> set (rel Blocked db (uid self)) \<or> related db (uid self) b) \<longrightarrow>
            (case send_friend_request self b db of (r, db') \<Rightarrow>
               r = Inr () \<and>
               b \<in> set (rel Pendings_outgoing db' (uid self)) \<and>
               uid self \<in> set (rel Pendings_incoming db' b) \<and>
               (matched db (uid self) b \<longrightarrow>
                  edges_between db' (uid self) b =
                    {(uid self, Pendings_outgoing, b), (b, Pendings_incoming, uid self)})))"
proof (intro conjI impI)
  assume "\<not> resolves db b \<or> uid self \<in> set (rel Blocked db b) \<or>
          b \<in> set (rel Blocked db (uid self)) \<or> related db (uid self) b"
  then show "send_friend_request self b db = (Inl InvalidUser, db)"
    by (simp add: send_friend_request_cases[OF assms])
next
  assume n: "\<not> (\<not> resolves db b \<or> uid self \<in> set (rel Blocked db b) \<or>
             b \<in> set (rel Blocked db (uid self)) \<or> related db (uid self) b)"
  let ?db' = "update_one b (Push Pendings_incoming (uid self))
                (update_one (uid self) (Push Pendings_outgoing b) db)"
  from n have s: "send_friend_request self b db = (Inr (), ?db')"
    by (simp add: send_friend_request_cases[OF assms])
  note ea = loaded_rel(5)[OF assms(1)]
  from n have eb: "exists_user db b" by (simp add: resolves_exists)
  have p1: "b \<in> set (rel Pendings_outgoing ?db' (uid self))"
    using ea eb by (simp add: rel_push)
  have p2: "uid self \<in> set (rel Pendings_incoming ?db' b)"
    using ea eb by (simp add: rel_push)
  have p3: "matched db (uid self) b \<longrightarrow>
      edges_between ?db' (uid self) b =
        {(uid self, Pendings_outgoing, b), (b, Pendings_incoming, uid self)}"
    using n edges_after_send[OF ea eb] by blast
  from p1 p2 p3 show "case send_friend_request self b db of (r, db') \<Rightarrow>
               r = Inr () \<and>
               b \<in> set (rel Pendings_outgoing db' (uid self)) \<and>
               uid self \<in> set (rel Pendings_incoming db' b) \<and>
               (matched db (uid self) b \<longrightarrow>
                  edges_between db' (uid self) b =
                    {(uid self, Pendings_outgoing, b), (b, Pendings_incoming, uid self)})"
    by (simp only: s split_conv simp_thms)
qed

theorem send_friend_request_correct_witness:
  "loaded strangers ann \<and> \<not> bot_flag ann \<and> unique_ids strangers \<and>
   fst (send_friend_request ann 2 strangers) = Inr () \<and>
   edges_between (snd (send_friend_request ann 2 strangers)) 1 2 =
     {(1, Pendings_outgoing, 2), (2, Pendings_incoming, 1)} \<and>
   loaded bob_asked_ann ann_asked \<and> \<not> bot_flag ann_asked \<and> unique_ids bob_asked_ann \<and>
   send_friend_request ann_asked 2 bob_asked_ann = (Inl InvalidUser, bob_asked_ann)"
proof -
  have l: "loaded strangers ann" by (simp add: eval_defs)
  have b: "\<not> bot_flag ann" by (simp add: eval_defs)
  have u: "unique_ids strangers" by (simp add: eval_defs2)
  have i: "uid ann = 1" by (simp add: eval_defs)
  have g: "\<not> (\<not> resolves strangers 2 \<or> uid ann \<in> set (rel Blocked strangers 2) \<or>
             2 \<in> set (rel Blocked strangers (uid ann)) \<or> related strangers (uid ann) 2)"
    by (simp add: eval_defs2)
  have m: "matched strangers (uid ann) 2" by (simp add: eval_defs2)
  from send_friend_request_correct[OF l b u, of 2] g m i
  have c1: "fst (send_friend_request ann 2 strangers) = Inr () \<and>
     edges_between (snd (send_friend_request ann 2 strangers)) 1 2 =
       {(1, Pendings_outgoing, 2), (2, Pendings_incoming, 1)}"
    by (auto simp only: split_beta)
  have l': "loaded bob_asked_ann ann_asked" by (simp add: eval_defs)
  have b': "\<not> bot_flag ann_asked" by (simp add: eval_defs)
  have u': "unique_ids bob_asked_ann" by (simp add: eval_defs2)
  have r: "related bob_asked_ann (uid ann_asked) 2" by (simp add: eval_defs2)
  from send_friend_request_correct[OF l' b' u', of 2] r
  have c2: "send_friend_request ann_asked 2 bob_asked_ann = (Inl InvalidUser, bob_asked_ann)"
    by blast
  from l b u c1 l' b' u' c2 show ?thesis by blast
qed

subsection \<open>Bot registration\<close>

lemma bots_of_sample_bots:
  "bots_of p (map (\<lambda>i. sample_bot i n p) xs) = length xs"
  by (induction xs) (simp_all add: bots_of_def count_documents_def sample_bot_def)

lemma bots_of_twenty_bots: "bots_of 1 twenty_bots = 20"
proof -
  have "bots_of 1 twenty_bots = bots_of 1 (map (\<lambda>i. sample_bot i ''bot'' 1) [2..<22])"
    by (simp add: twenty_bots_def bots_of_def count_documents_def sample_user_def)
  then show ?thesis by (simp only: bots_of_sample_bots) simp
qed

text \<open>
  Claim C3 on the code. \<open>registrate_bot\<close> raises \<open>ValueError\<close> and inserts nothing when
  the parent has more than 20 non-deleted bots. With 20 or fewer it inserts a bot
  document owned by the parent and returns its object, and the parent's count grows
  by one: a parent that has exactly 20 bots gets a twenty-first.
\<close>

theorem registrate_bot_threshold:
  "(20 < bots_of p db \<longrightarrow>
      registrate_bot i t now n p db = (Inl ValueError, db)) \<and>
   (bots_of p db \<le> 20 \<longrightarrow>
      (\<exists>m d. registrate_bot i t now n p db = (Inr m, db @ [d]) \<and>
         uid m = i \<and> bot_flag m \<and> parent m = Some p \<and>
         d_id d = i \<and> d_bot d = Some True \<and> d_parent d = Some p \<and> d_deleted d = None) \<and>
      bots_of p (snd (registrate_bot i t now n p db)) = Suc (bots_of p db))"
  by (simp add: registrate_bot_def bots_of_def count_documents_def Let_def UserModel_init_def)

theorem registrate_bot_threshold_witness:
  "bots_of 1 twenty_bots = 20 \<and>
   (\<exists>m. fst (registrate_bot 22 ''tok'' 0 ''bot'' 1 twenty_bots) = Inr m) \<and>
   bots_of 1 (snd (registrate_bot 22 ''tok'' 0 ''bot'' 1 twenty_bots)) = 21"
proof -
  note c = bots_of_twenty_bots
  from registrate_bot_threshold[of 1 twenty_bots 22 "''tok''" 0 "''bot''"] c
  show ?thesis by auto
qed

subsection \<open>Password authentication\<close>

text \<open>
  Claim C8 on the code. On the password path (empty token, non-empty login and
  password): when no document has the hashed login, \<open>authorize\<close> raises \<open>TypeError\<close>,
  not \<open>InvalidUser\<close>. When the first document with the hashed login has the salt
  \<open>salt\<close>, the password is hashed with that salt and 100000 iterations, and the call
  raises \<open>InvalidUser\<close> when no document has the hashed login and that digest, and
  otherwise builds the object of the first such document.
\<close>

theorem authorize_password_path:
  assumes "login \<noteq> []" and "password \<noteq> []"
  shows "((\<forall>d \<in> set db. d_login d \<noteq> Some (sha256_hex login)) \<longrightarrow>
            authorize sha256_hex pbkdf2_hex db login password [] = Inl TypeError) \<and>
         (\<forall>d salt. find_one (\<lambda>d. d_login d = Some (sha256_hex login)) db = Some d \<and>
              d_salt d = Some salt \<longrightarrow>
            authorize sha256_hex pbkdf2_hex db login password [] =
              (case find_one (\<lambda>d. d_login d = Some (sha256_hex login) \<and>
                                  d_password d = Some (pbkdf2_hex password salt 100000)) db of
                 None \<Rightarrow> Inl InvalidUser
               | Some user \<Rightarrow> UserModel_init (exclude_auth user)))"
proof (intro conjI impI allI)
  assume "\<forall>d \<in> set db. d_login d \<noteq> Some (sha256_hex login)"
  then have "find_one (\<lambda>d. d_login d = Some (sha256_hex login)) db = None"
    by (simp add: find_one_None)
  with assms show "authorize sha256_hex pbkdf2_hex db login password [] = Inl TypeError"
    by (simp add: authorize_def get_salt_hashed_login_def)
next
  fix d salt
  assume "find_one (\<lambda>d. d_login d = Some (sha256_hex login)) db = Some d \<and>
              d_salt d = Some salt"
  with assms show "authorize sha256_hex pbkdf2_hex db login password [] =
              (case find_one (\<lambda>d. d_login d = Some (sha256_hex login) \<and>
                                  d_password d = Some (pbkdf2_hex password salt 100000)) db of
                 None \<Rightarrow> Inl InvalidUser
               | Some user \<Rightarrow> UserModel_init (exclude_auth user))"
    by (simp add: authorize_def get_salt_hashed_login_def)
qed

theorem authorize_password_path_witness:
  "authorize toy_sha256 toy_pbkdf2 registered ''bob'' ''secret'' [] = Inl TypeError \<and>
   authorize toy_sha256 toy_pbkdf2 registered ''ann'' ''wrong'' [] = Inl InvalidUser \<and>
   authorize toy_sha256 toy_pbkdf2 registered ''ann'' ''secret'' [] =
     Inr (sample_model 1 ''Ann'' [] [] [] [])"
proof -
  have n: "\<forall>d \<in> set registered. d_login d \<noteq> Some (toy_sha256 ''bob'')"
    by (simp add: registered_def toy_sha256_def sample_user_def)
  have f: "find_one (\<lambda>d. d_login d = Some (toy_sha256 ''ann'')) registered =
             Some (hd registered) \<and> d_salt (hd registered) = Some ''s1''"
    by (simp add: registered_def toy_sha256_def sample_user_def)
  from authorize_password_path[of "''bob''" "''secret''" registered toy_sha256 toy_pbkdf2] n
  have 1: "authorize toy_sha256 toy_pbkdf2 registered ''bob'' ''secret'' [] = Inl TypeError"
    by simp
  from authorize_password_path[of "''ann''" "''wrong''" registered toy_sha256 toy_pbkdf2] f
  have 2: "authorize toy_sha256 toy_pbkdf2 registered ''ann'' ''wrong'' [] = Inl InvalidUser"
    by (simp add: registered_def toy_sha256_def toy_pbkdf2_def sample_user_def)
  from authorize_password_path[of "''ann''" "''secret''" registered toy_sha256 toy_pbkdf2] f
  have 3: "authorize toy_sha256 toy_pbkdf2 registered ''ann'' ''secret'' [] =
     Inr (sample_model 1 ''Ann'' [] [] [] [])"
    by (simp add: registered_def toy_sha256_def toy_pbkdf2_def sample_user_def
          sample_model_def exclude_auth_def UserModel_init_def)
  from 1 2 3 show ?thesis by blast
qed

subsection \<open>Listings\<close>

lemma stripped_exclude_public: "stripped (exclude_public d)"
  by (simp add: stripped_def exclude_public_def)

lemma UserModel_init_stripped:
  assumes "stripped d" and "UserModel_init d = Inr u"
  shows "status_of u = Offline"
  using assms unfolding UserModel_init_def stripped_def
  by (cases "d_nick d"; cases "d_created_at d"; auto split: if_splits)

lemma users_objects_offline:
  assumes "list_all stripped ds" and "users_objects ds = Inr ps"
  shows "list_all (\<lambda>p. p_status p = Offline) ps"
  using assms
proof (induction ds arbitrary: ps)
  case Nil
  then show ?case by simp
next
  case (Cons d ds)
  from Cons.prems(2) obtain u qs where u: "UserModel_init d = Inr u"
    and qs: "users_objects ds = Inr qs" and ps: "ps = public_dict u # qs"
    by (auto split: sum.splits)
  from Cons.prems(1) u have "status_of u = Offline"
    using UserModel_init_stripped[of d u] by simp
  moreover from Cons.IH[OF _ qs] Cons.prems(1)
  have "list_all (\<lambda>p. p_status p = Offline) qs" by simp
  ultimately show ?case by (simp add: ps public_dict_def)
qed

lemma UserModel_init_total:
  assumes "stripped d" and "d_nick d \<noteq> None" and "d_created_at d \<noteq> None"
  shows "\<exists>u. UserModel_init d = Inr u"
  using assms unfolding UserModel_init_def stripped_def
  by (cases "d_nick d"; cases "d_created_at d"; simp)

lemma users_objects_total:
  assumes "list_all (\<lambda>d. stripped d \<and> d_nick d \<noteq> None \<and> d_created_at d \<noteq> None) ds"
  shows "\<exists>ps. users_objects ds = Inr ps \<and> length ps = length ds"
  using assms
proof (induction ds)
  case Nil
  then show ?case by simp
next
  case (Cons d ds)
  from Cons.prems obtain u where u: "UserModel_init d = Inr u"
    using UserModel_init_total[of d] by auto
  from Cons obtain ps where "users_objects ds = Inr ps \<and> length ps = length ds"
    by auto
  with u show ?case by simp
qed

lemma find_docs_stripped:
  "list_all stripped (find_docs flt exclude_public db)"
  by (simp add: find_docs_def list_all_iff stripped_exclude_public)

lemma exclude_public_keeps:
  "d_nick (exclude_public d) = d_nick d"
  "d_created_at (exclude_public d) = d_created_at d"
  by (simp_all add: exclude_public_def)

lemma find_docs_complete:
  assumes "complete_docs db"
  shows "list_all (\<lambda>d. stripped d \<and> d_nick d \<noteq> None \<and> d_created_at d \<noteq> None)
           (find_docs flt exclude_public db)"
  using assms
  by (auto simp: find_docs_def complete_docs_def list_all_iff stripped_exclude_public
        exclude_public_keeps)

lemma list_all_sort_nick_desc:
  "list_all P (sort_nick_desc ds) = list_all P ds"
  by (simp add: sort_nick_desc_def list_all_iff)

text \<open>
  Claim C10. Every document a listing fetches is stripped of \<open>status\<close>, \<open>parent\<close>,
  the four relation arrays, the credentials, the token and the friend code. Every
  profile \<open>get_friends\<close> or \<open>get_blocked\<close> returns has the status \<open>Offline\<close>, whatever
  status is stored. When every stored document has \<open>nick\<close> and \<open>created_at\<close>, both
  listings return, with one profile per requested document (\<open>get_friends\<close> for an
  actor that is not a bot).
\<close>

theorem listings_report_offline:
  "list_all stripped (find_docs flt exclude_public db) \<and>
   (\<forall>ps. get_friends self ids db = Inr ps \<longrightarrow> list_all (\<lambda>p. p_status p = Offline) ps) \<and>
   (\<forall>ps. get_blocked self ids db = Inr ps \<longrightarrow> list_all (\<lambda>p. p_status p = Offline) ps) \<and>
   (complete_docs db \<longrightarrow>
      (\<exists>ps. get_blocked self ids db = Inr ps \<and>
            length ps = count_documents (\<lambda>d. d_id d \<in> set ids) db) \<and>
      (\<not> bot_flag self \<longrightarrow>
         (\<exists>ps. get_friends self ids db = Inr ps \<and>
               length ps = count_documents (\<lambda>d. d_id d \<in> set ids) db)))"
proof (intro conjI impI allI)
  show "list_all stripped (find_docs flt exclude_public db)"
    by (rule find_docs_stripped)
next
  fix ps assume "get_friends self ids db = Inr ps"
  then show "list_all (\<lambda>p. p_status p = Offline) ps"
    using users_objects_offline[of "sort_nick_desc (find_docs (\<lambda>d. d_id d \<in> set ids) exclude_public db)" ps]
    by (auto simp: get_friends_def list_all_sort_nick_desc find_docs_stripped split: if_splits)
next
  fix ps assume "get_blocked self ids db = Inr ps"
  then show "list_all (\<lambda>p. p_status p = Offline) ps"
    using users_objects_offline[of "find_docs (\<lambda>d. d_id d \<in> set ids) exclude_public db" ps]
    by (simp add: get_blocked_def find_docs_stripped)
next
  assume c: "complete_docs db"
  from users_objects_total[OF find_docs_complete[OF c]]
  show "\<exists>ps. get_blocked self ids db = Inr ps \<and>
            length ps = count_documents (\<lambda>d. d_id d \<in> set ids) db"
    by (simp add: get_blocked_def count_documents_def find_docs_def)
next
  assume c: "complete_docs db" and b: "\<not> bot_flag self"
  have "list_all (\<lambda>d. stripped d \<and> d_nick d \<noteq> None \<and> d_created_at d \<noteq> None)
           (sort_nick_desc (find_docs (\<lambda>d. d_id d \<in> set ids) exclude_public db))"
    by (simp only: list_all_sort_nick_desc find_docs_complete[OF c])
  from users_objects_total[OF this] b
  show "\<exists>ps. get_friends self ids db = Inr ps \<and>
            length ps = count_documents (\<lambda>d. d_id d \<in> set ids) db"
    by (simp add: get_friends_def count_documents_def find_docs_def sort_nick_desc_def)
qed

theorem listings_report_offline_witness:
  "map d_status strangers = [Some Online, Some Online] \<and>
   complete_docs strangers \<and> \<not> bot_flag ann \<and>
   (\<exists>ps. get_friends ann [1, 2] strangers = Inr ps \<and> length ps = 2 \<and>
         list_all (\<lambda>p. p_status p = Offline) ps) \<and>
   (\<exists>ps. get_blocked ann [1, 2] strangers = Inr ps \<and> length ps = 2 \<and>
         list_all (\<lambda>p. p_status p = Offline) ps)"
proof -
  have s: "map d_status strangers = [Some Online, Some Online]"
    by (simp add: strangers_def sample_user_def)
  have c: "complete_docs strangers"
    by (simp add: complete_docs_def strangers_def sample_user_def)
  have b: "\<not> bot_flag ann" by (simp add: ann_def sample_model_def)
  have n: "count_documents (\<lambda>d. d_id d \<in> set [1, 2]) strangers = 2"
    by (simp add: count_documents_def strangers_def sample_user_def)
  note t = listings_report_offline[of "\<lambda>d. True" strangers ann "[1, 2]"]
  from t c b n
  have f: "\<exists>ps. get_friends ann [1, 2] strangers = Inr ps \<and> length ps = 2 \<and>
         list_all (\<lambda>p. p_status p = Offline) ps"
    by metis
  from t c n
  have g: "\<exists>ps. get_blocked ann [1, 2] strangers = Inr ps \<and> length ps = 2 \<and>
         list_all (\<lambda>p. p_status p = Offline) ps"
    by metis
  from s c b f g show ?thesis by blast
qed

subsection \<open>Delivery order\<close>

lemma flush_uncancelled:
  "n \<le> length (message_pool c) \<Longrightarrow>
   flush str n arrivals None c =
     (Inr (), c\<lparr>message_pool := drop n (message_pool c) @ concat (take n arrivals),
               sent := sent c @ map str (take n (message_pool c)),
               enqueued := enqueued c @ concat (take n arrivals)\<rparr>)"
proof (induction n arbitrary: arrivals c)
  case 0
  then show ?case by simp
next
  case (Suc n)
  then obtain m rest where p: "message_pool c = m # rest"
    by (cases "message_pool c") auto
  with Suc.prems have l: "n \<le> length rest" by simp
  show ?case
  proof (cases arrivals)
    case Nil
    with p l show ?thesis
      by (simp add: Suc.IH enqueue_def)
  next
    case (Cons a as)
    with p l show ?thesis
      by (simp add: Suc.IH enqueue_def)
  qed
qed

lemma cycle_uncancelled:
  assumes "cancel_at ev = None"
  shows "cycle str ev c =
     (Running, c\<lparr>message_pool := concat (take (length (message_pool c)) (on_send ev)) @ on_sleep ev,
                 sent := sent c @ map str (message_pool c),
                 enqueued := enqueued c @ concat (take (length (message_pool c)) (on_send ev))
                               @ on_sleep ev\<rparr>)"
  using assms by (simp add: cycle_def flush_uncancelled enqueue_def Let_def)

lemma cycle_in_order:
  assumes "cancel_at ev = None" and "in_order str c"
  shows "in_order str (snd (cycle str ev c))"
  using assms(2) by (simp add: cycle_uncancelled[OF assms(1)] in_order_def)

lemma run_in_order:
  assumes "list_all uncancelled evs" and "in_order str c"
  shows "fst (run str evs c) = Running \<and> in_order str (snd (run str evs c))"
  using assms
proof (induction evs arbitrary: c)
  case Nil
  then show ?case by simp
next
  case (Cons ev evs)
  from Cons.prems(1) have u: "cancel_at ev = None" by (simp add: uncancelled_def)
  have "in_order str (snd (cycle str ev c))"
    by (rule cycle_in_order[OF u Cons.prems(2)])
  with Cons.IH[of "snd (cycle str ev c)"] Cons.prems(1)
  show ?case by (simp add: cycle_uncancelled[OF u])
qed

lemma run_snoc:
  assumes "list_all uncancelled evs"
  shows "run str (evs @ [ev]) c = cycle str ev (snd (run str evs c))"
  using assms
proof (induction evs arbitrary: c)
  case Nil
  show ?case by (cases "cycle str ev c") (auto split: loop_state.splits)
next
  case (Cons e evs)
  from Cons.prems have u: "cancel_at e = None" by (simp add: uncancelled_def)
  from Cons.prems have us: "list_all uncancelled evs" by simp
  show ?case by (simp add: cycle_uncancelled[OF u] Cons.IH[OF us])
qed

text \<open>
  Claim C7. A cycle that is not cancelled keeps the loop running and sends exactly
  the messages that were queued when it started, in queue order; the messages
  enqueued during the cycle are the pool it leaves. Over any number of such cycles,
  starting from a connection in order: the loop is still running; what has been
  sent followed by what is queued is what has been enqueued, in that order; and
  after one more cycle the loop has sent exactly what had been enqueued before that
  cycle, in the order of enqueueing, and holds exactly the messages that arrived
  during it. A loop of no cycle leaves the connection as it is.
\<close>

theorem delivery_loop_fifo:
  "(uncancelled ev \<longrightarrow>
      (case cycle str ev c of (st, c') \<Rightarrow>
         st = Running \<and>
         sent c' = sent c @ map str (message_pool c) \<and>
         message_pool c' =
           concat (take (length (message_pool c)) (on_send ev)) @ on_sleep ev)) \<and>
   (list_all uncancelled evs \<and> uncancelled ev \<and> in_order str c \<longrightarrow>
      (case run str evs c of (st1, c1) \<Rightarrow>
       case run str (evs @ [ev]) c of (st2, c2) \<Rightarrow>
         st1 = Running \<and> st2 = Running \<and>
         sent c1 @ map str (message_pool c1) = map str (enqueued c1) \<and>
         sent c2 = map str (enqueued c1) \<and>
         message_pool c2 =
           concat (take (length (message_pool c1)) (on_send ev)) @ on_sleep ev \<and>
         enqueued c2 = enqueued c1 @ message_pool c2)) \<and>
   run str [] c = (Running, c)"
proof (intro conjI impI)
  assume "uncancelled ev"
  then show "case cycle str ev c of (st, c') \<Rightarrow>
         st = Running \<and>
         sent c' = sent c @ map str (message_pool c) \<and>
         message_pool c' =
           concat (take (length (message_pool c)) (on_send ev)) @ on_sleep ev"
    by (simp add: cycle_uncancelled uncancelled_def)
next
  assume a: "list_all uncancelled evs \<and> uncancelled ev \<and> in_order str c"
  obtain st1 c1 where r: "run str evs c = (st1, c1)" by (cases "run str evs c")
  from run_in_order[of evs str c] a r have st: "st1 = Running" and o: "in_order str c1"
    by simp_all
  from a have u: "cancel_at ev = None" by (simp add: uncancelled_def)
  from a have s: "run str (evs @ [ev]) c = cycle str ev c1"
    by (simp add: run_snoc r)
  from o have i: "sent c1 @ map str (message_pool c1) = map str (enqueued c1)"
    by (simp add: in_order_def)
  show "case run str evs c of (st1, c1) \<Rightarrow>
       case run str (evs @ [ev]) c of (st2, c2) \<Rightarrow>
         st1 = Running \<and> st2 = Running \<and>
         sent c1 @ map str (message_pool c1) = map str (enqueued c1) \<and>
         sent c2 = map str (enqueued c1) \<and>
         message_pool c2 =
           concat (take (length (message_pool c1)) (on_send ev)) @ on_sleep ev \<and>
         enqueued c2 = enqueued c1 @ message_pool c2"
    using i by (simp add: r st s cycle_uncancelled[OF u])
next
  show "run str [] c = (Running, c)" by simp
qed

lemmas loop_defs = cycle_def enqueue_def idle_def two_queued_def third_arrives_def
  in_order_def uncancelled_def Let_def

theorem delivery_loop_fifo_witness:
  "uncancelled third_arrives \<and> uncancelled (idle :: string cycle_events) \<and>
   in_order id two_queued \<and>
   sent (snd (cycle id third_arrives two_queued)) = [''m1'', ''m2''] \<and>
   message_pool (snd (cycle id third_arrives two_queued)) = [''m3''] \<and>
   sent (snd (run id [third_arrives] two_queued)) = [''m1'', ''m2''] \<and>
   message_pool (snd (run id [third_arrives] two_queued)) = [''m3''] \<and>
   sent (snd (run id [third_arrives, idle] two_queued)) = [''m1'', ''m2'', ''m3''] \<and>
   message_pool (snd (run id [third_arrives, idle] two_queued)) = []"
proof -
  have u: "uncancelled third_arrives" by (simp add: loop_defs)
  have ui: "uncancelled (idle :: string cycle_events)" by (simp add: loop_defs)
  have o: "in_order id two_queued" by (simp add: loop_defs)
  have p: "message_pool two_queued = [''m1'', ''m2'']" "sent two_queued = []"
    "enqueued two_queued = [''m1'', ''m2'']"
    "on_send third_arrives = [[''m3'']]" "on_sleep third_arrives = []"
    "on_send (idle :: string cycle_events) = []"
    "on_sleep (idle :: string cycle_events) = []"
    by (simp_all add: loop_defs)
  note t1 = delivery_loop_fifo[where ev = third_arrives and str = id and c = two_queued
    and evs = "[]"]
  note t2 = delivery_loop_fifo[where ev = idle and str = id and c = two_queued
    and evs = "[third_arrives]"]
  from t1 u p have 1: "sent (snd (cycle id third_arrives two_queued)) = [''m1'', ''m2''] \<and>
   message_pool (snd (cycle id third_arrives two_queued)) = [''m3'']"
    by (auto simp: split_beta)
  from t1 u o p have 2: "sent (snd (run id [third_arrives] two_queued)) = [''m1'', ''m2''] \<and>
   message_pool (snd (run id [third_arrives] two_queued)) = [''m3''] \<and>
   enqueued (snd (run id [third_arrives] two_queued)) = [''m1'', ''m2'', ''m3'']"
    by (auto simp: split_beta)
  from t2 u ui o p 2
  have 3: "sent (snd (run id [third_arrives, idle] two_queued)) = [''m1'', ''m2'', ''m3''] \<and>
   message_pool (snd (run id [third_arrives, idle] two_queued)) = []"
    by (auto simp: split_beta)
  from u ui o 1 2 3 show ?thesis by blast
qed

end
